theory Spec2Isabelle
  imports Main "HOL-Library.Word"
begin

section \<open>The Zabbix JSON-RPC client of \<^verbatim>\<open>base.go\<close>\<close>

text \<open>
  The client is embedded as pure functions over an explicit \<open>API\<close> record. Go's machine
  integers are words: \<open>int32\<close> is \<open>32 word\<close>, \<open>int64\<close> and (on the usual 64-bit
  platforms) \<open>int\<close> are \<open>64 word\<close>; \<open>sint\<close> reads them as signed values and the
  arithmetic wraps as Go's does. Byte slices that hold JSON text are represented by the JSON
  value they spell; a body that is not JSON text is \<open>None\<close>. Logging through
  \<open>api.printf\<close> changes neither a return value nor a field of the client and is left out, and
  so is the mutex of \<open>Config.Serialize\<close>, which has no effect on one thread of control.
\<close>

type_synonym int32 = "32 word"
type_synonym int64 = "64 word"

subsection \<open>JSON values\<close>

text \<open>
  A number keeps its literal text, as the decoder of \<open>encoding/json\<close> does until it knows the
  type it stores into. An object keeps its members in order, duplicates included.
\<close>

datatype json =
    JNull
  | JBool bool
  | JNum string
  | JStr string
  | JArr "json list"
  | JObj "(string \<times> json) list"

fun json_member :: "json \<Rightarrow> string \<Rightarrow> json option" where
  "json_member (JObj ms) k = map_of ms k"
| "json_member _ k = None"

fun json_keys :: "json \<Rightarrow> string set" where
  "json_keys (JObj ms) = fst ` set ms"
| "json_keys _ = {}"

subsection \<open>Errors\<close>

text \<open>\<open>type Error struct\<close>: the API error of a response envelope.\<close>

record Error =
  Code :: int64
  Message :: string
  Data :: string

text \<open>
  The error values that reach a caller: \<open>ErrSyntax\<close> and \<open>ErrRange\<close> of \<open>strconv\<close>, a
  failure of \<open>json.Marshal\<close>, of \<open>http.NewRequest\<close>, of \<open>http.Client.Do\<close>, of
  \<open>ioutil.ReadAll\<close>, the syntax and type errors of \<open>json.Unmarshal\<close>, and \<open>*Error\<close>.
\<close>

datatype error =
    ErrSyntax
  | ErrRange
  | MarshalError
  | NewRequestError
  | DoError
  | ReadError
  | SyntaxError
  | UnmarshalTypeError
  | APIError Error

text \<open>A call that ends in a Go panic returns nothing.\<close>

datatype 'a outcome = Returned 'a | Panicked

subsection \<open>\<open>strconv.ParseInt(s, 10, 64)\<close> and \<open>strings.Split\<close>\<close>

definition is_digit :: "char \<Rightarrow> bool" where
  "is_digit c = (48 \<le> (of_char c :: nat) \<and> (of_char c :: nat) \<le> 57)"

definition digit_val :: "char \<Rightarrow> nat" where
  "digit_val c = of_char c - 48"

definition maxUint64 :: "64 word" where
  "maxUint64 = 0xFFFFFFFFFFFFFFFF"

text \<open>\<open>cutoff\<close> is the smallest number such that \<open>cutoff * 10\<close> exceeds \<open>maxUint64\<close>.\<close>

definition cutoff :: "64 word" where
  "cutoff = maxUint64 div 10 + 1"

text \<open>
  The digit loop of \<open>strconv.ParseUint\<close> at base 10 and bit size 64, on unsigned 64-bit
  words: a byte that is no decimal digit is a syntax error, an overflow of \<open>n * 10\<close> or of
  \<open>n + d\<close> is a range error.
\<close>

fun ParseUint_loop :: "string \<Rightarrow> 64 word \<Rightarrow> error + 64 word" where
  "ParseUint_loop [] n = Inr n"
| "ParseUint_loop (c # cs) n =
     (if \<not> is_digit c then Inl ErrSyntax
      else if cutoff \<le> n then Inl ErrRange
      else let n' = n * 10; n1 = n' + of_nat (digit_val c)
           in if n1 < n' \<or> maxUint64 < n1 then Inl ErrRange
              else ParseUint_loop cs n1)"

definition ParseUint :: "string \<Rightarrow> error + 64 word" where
  "ParseUint s = (if s = [] then Inl ErrSyntax else ParseUint_loop s 0)"

text \<open>
  \<open>strconv.ParseInt\<close>: an optional sign, then \<open>ParseUint\<close>, then the signed range check.
  After a range error of \<open>ParseUint\<close> Go goes on with \<open>un = maxUint64\<close>, which fails the
  signed check with a range error for either sign; the model returns that error at once.
\<close>

definition ParseInt :: "string \<Rightarrow> error + int64" where
  "ParseInt s =
     (if s = [] then Inl ErrSyntax
      else let neg = (hd s = CHR ''-'');
               s' = (if hd s = CHR ''+'' \<or> hd s = CHR ''-'' then tl s else s)
           in case ParseUint s' of
                Inl e \<Rightarrow> Inl e
              | Inr un \<Rightarrow>
                  if \<not> neg \<and> 2 ^ 63 \<le> un then Inl ErrRange
                  else if neg \<and> 2 ^ 63 < un then Inl ErrRange
                  else Inr (if neg then - un else un))"

text \<open>
  \<open>strings.Split(s, sep)\<close> for a one-byte separator: cut at every separator; a string
  without one is returned whole, so the result is never empty.
\<close>

function strings_Split :: "string \<Rightarrow> char \<Rightarrow> string list" where
  "strings_Split s sep =
     (case dropWhile (\<lambda>c. c \<noteq> sep) s of
        [] \<Rightarrow> [s]
      | _ # rest \<Rightarrow> takeWhile (\<lambda>c. c \<noteq> sep) s # strings_Split rest sep)"
  by pat_completeness auto
termination
proof (relation "measure (\<lambda>(s, sep). length s)")
  show "wf (measure (\<lambda>(s, sep). length s))" by simp
next
  fix s :: string and sep x21 x22
  assume "dropWhile (\<lambda>c. c \<noteq> sep) s = x21 # x22"
  then have "length x22 < length (dropWhile (\<lambda>c. c \<noteq> sep) s)" by simp
  also have "\<dots> \<le> length s" by (rule length_dropWhile_le)
  finally show "((x22, sep), (s, sep)) \<in> measure (\<lambda>(s, sep). length s)" by simp
qed

declare strings_Split.simps [simp del]

text \<open>\<open>strconv.FormatInt(i, 10)\<close>, the decimal text \<open>json.Marshal\<close> writes for an integer.\<close>

function digits_of :: "nat \<Rightarrow> string" where
  "digits_of n =
     (if n < 10 then [char_of (48 + n)]
      else digits_of (n div 10) @ [char_of (48 + n mod 10)])"
  by pat_completeness auto
termination
  by (relation "measure id") auto

declare digits_of.simps [simp del]

definition FormatInt :: "int \<Rightarrow> string" where
  "FormatInt i = (if i < 0 then CHR ''-'' # digits_of (nat (- i)) else digits_of (nat i))"

subsection \<open>\<open>parseVersionString\<close>\<close>

text \<open>
  \<open>parts[0]\<close> is in range because \<open>strings.Split\<close> never returns an empty slice
  (lemma \<open>strings_Split_nonempty\<close> below). The multiplications and additions are those of
  \<open>int64\<close>.
\<close>

definition parseVersionString :: "string \<Rightarrow> error + int64" where
  "parseVersionString vstr =
     (let parts = strings_Split vstr (CHR ''.'')
      in case ParseInt (parts ! 0) of
           Inl e \<Rightarrow> Inl e
         | Inr v0 \<Rightarrow>
             let version = v0 * 10000
             in case (if 1 < length parts
                      then (case ParseInt (parts ! 1) of
                              Inl e \<Rightarrow> Inl e
                            | Inr no \<Rightarrow> Inr (version + no * 100))
                      else Inr version) of
                  Inl e \<Rightarrow> Inl e
                | Inr version \<Rightarrow>
                    if 2 < length parts
                    then (case ParseInt (parts ! 2) of
                            Inl e \<Rightarrow> Inl e
                          | Inr no \<Rightarrow> Inr (version + no))
                    else Inr version)"

text \<open>
  The reading of a segment as a base-10 integer, used to state what the parser computes: an
  optional sign and at least one decimal digit, valued by Horner's rule.
\<close>

definition dec_step :: "nat \<Rightarrow> char \<Rightarrow> nat" where
  "dec_step n c = 10 * n + digit_val c"

definition dec_int :: "string \<Rightarrow> int option" where
  "dec_int s =
     (let signed = (s \<noteq> [] \<and> (hd s = CHR ''+'' \<or> hd s = CHR ''-''));
          ds = (if signed then tl s else s)
      in if ds \<noteq> [] \<and> (\<forall>c\<in>set ds. is_digit c)
         then Some (if s \<noteq> [] \<and> hd s = CHR ''-'' then - int (foldl dec_step 0 ds)
                    else int (foldl dec_step 0 ds))
         else None)"

text \<open>A base-10 integer that \<open>int64\<close> can hold.\<close>

definition int64_of :: "string \<Rightarrow> int option" where
  "int64_of s =
     (case dec_int s of
        None \<Rightarrow> None
      | Some v \<Rightarrow> if - (2 ^ 63) \<le> v \<and> v < 2 ^ 63 then Some v else None)"

text \<open>A version string written from its dot-separated segments.\<close>

fun join_dots :: "string list \<Rightarrow> string" where
  "join_dots [] = []"
| "join_dots [s] = s"
| "join_dots (s # t # ss) = s @ CHR ''.'' # join_dots (t # ss)"

text \<open>The weighting of major, minor and patch over the integers.\<close>

fun version_weight :: "int list \<Rightarrow> int" where
  "version_weight [] = 0"
| "version_weight [a] = a * 10000"
| "version_weight [a, b] = a * 10000 + b * 100"
| "version_weight (a # b # c # _) = a * 10000 + b * 100 + c"

subsection \<open>Envelopes\<close>

text \<open>
  \<open>interface{}\<close> as the parameter of a call: a value that \<open>json.Marshal\<close> encodes, given by
  its encoding, or one that it rejects.
\<close>

datatype iface = Encodable json | Unencodable

text \<open>\<open>type request struct\<close>.\<close>

record request =
  rq_Jsonrpc :: string
  rq_Method :: string
  rq_Params :: iface
  rq_Auth :: string
  rq_ID :: int32

text \<open>
  \<open>type Response struct\<close>. \<open>Result\<close> is an \<open>interface{}\<close> that holds a decoded JSON value:
  \<open>JNull\<close> is the nil interface, \<open>JStr s\<close> a Go string, a number a \<open>float64\<close> (the
  conversion of the literal to \<open>float64\<close> is not modelled).
\<close>

record Response =
  Jsonrpc :: string
  Error :: "Error option"
  Result :: json
  ID :: int32

text \<open>\<open>type RawResponse struct\<close>: the result stays undecoded; \<open>None\<close> is the nil slice.\<close>

record RawResponse =
  raw_Jsonrpc :: string
  raw_Error :: "Error option"
  raw_Result :: "json option"
  raw_ID :: int32

definition zero_Error :: Error where
  "zero_Error = \<lparr>Code = 0, Message = [], Data = []\<rparr>"

definition zero_Response :: Response where
  "zero_Response = \<lparr>Jsonrpc = [], Error = None, Result = JNull, ID = 0\<rparr>"

definition zero_RawResponse :: RawResponse where
  "zero_RawResponse = \<lparr>raw_Jsonrpc = [], raw_Error = None, raw_Result = None, raw_ID = 0\<rparr>"

subsection \<open>\<open>json.Marshal\<close> of a request\<close>

text \<open>
  The members follow the order of the struct fields; \<open>auth\<close> has \<open>omitempty\<close> and is left
  out when the field is the empty string.
\<close>

definition Marshal_request :: "request \<Rightarrow> error + json" where
  "Marshal_request r =
     (case rq_Params r of
        Unencodable \<Rightarrow> Inl MarshalError
      | Encodable p \<Rightarrow>
          Inr (JObj ([(''jsonrpc'', JStr (rq_Jsonrpc r)),
                      (''method'', JStr (rq_Method r)),
                      (''params'', p)]
                     @ (if rq_Auth r = [] then [] else [(''auth'', JStr (rq_Auth r))])
                     @ [(''id'', JNum (FormatInt (sint (rq_ID r))))])))"

subsection \<open>\<open>json.Unmarshal\<close> into the envelopes\<close>

text \<open>
  The decoder matches an object key to a struct field without regard to case (ASCII letters
  here; the two non-ASCII runes that Unicode folds to \<open>k\<close> and \<open>s\<close> are not modelled), takes
  the members in order so that a later duplicate overwrites, skips unknown keys, treats
  \<open>null\<close> as "leave the field" for strings and numbers, and on a value of the wrong type
  records a type error and carries on. The flag of each function below is "a type error was
  recorded".
\<close>

definition lower :: "char \<Rightarrow> char" where
  "lower c =
     (if 65 \<le> (of_char c :: nat) \<and> (of_char c :: nat) \<le> 90
      then char_of (of_char c + 32 :: nat) else c)"

definition foldName :: "string \<Rightarrow> string" where
  "foldName s = map lower s"

fun store_string :: "json \<Rightarrow> string \<Rightarrow> string \<times> bool" where
  "store_string JNull old = (old, False)"
| "store_string (JStr s) old = (s, False)"
| "store_string _ old = (old, True)"

fun store_int :: "json \<Rightarrow> int64 \<Rightarrow> int64 \<times> bool" where
  "store_int JNull old = (old, False)"
| "store_int (JNum lit) old =
     (case ParseInt lit of Inr n \<Rightarrow> (n, False) | Inl _ \<Rightarrow> (old, True))"
| "store_int _ old = (old, True)"

fun store_int32 :: "json \<Rightarrow> int32 \<Rightarrow> int32 \<times> bool" where
  "store_int32 JNull old = (old, False)"
| "store_int32 (JNum lit) old =
     (case ParseInt lit of
        Inr n \<Rightarrow>
          if - (2 ^ 31) \<le> sint n \<and> sint n < 2 ^ 31 then (ucast n, False) else (old, True)
      | Inl _ \<Rightarrow> (old, True))"
| "store_int32 _ old = (old, True)"

definition Error_member :: "string \<times> json \<Rightarrow> Error \<times> bool \<Rightarrow> Error \<times> bool" where
  "Error_member kv eb =
     (case kv of (k, v) \<Rightarrow> case eb of (e, bad) \<Rightarrow>
        if foldName k = ''code''
        then (case store_int v (Code e) of (c, b) \<Rightarrow> (e\<lparr>Code := c\<rparr>, bad \<or> b))
        else if foldName k = ''message''
        then (case store_string v (Message e) of (m, b) \<Rightarrow> (e\<lparr>Message := m\<rparr>, bad \<or> b))
        else if foldName k = ''data''
        then (case store_string v (Data e) of (d, b) \<Rightarrow> (e\<lparr>Data := d\<rparr>, bad \<or> b))
        else (e, bad))"

text \<open>
  Storing into a field of type \<open>*Error\<close>: \<open>null\<close> sets the pointer to nil; any other value
  allocates the struct when the pointer is nil, and then an object is decoded into it while
  anything else is a type error.
\<close>

fun store_Error_ptr :: "json \<Rightarrow> Error option \<Rightarrow> Error option \<times> bool" where
  "store_Error_ptr JNull old = (None, False)"
| "store_Error_ptr (JObj ms) old =
     (case fold Error_member ms (case old of None \<Rightarrow> zero_Error | Some e \<Rightarrow> e, False) of
        (e, bad) \<Rightarrow> (Some e, bad))"
| "store_Error_ptr _ old = (Some (case old of None \<Rightarrow> zero_Error | Some e \<Rightarrow> e), True)"

definition Response_member :: "string \<times> json \<Rightarrow> Response \<times> bool \<Rightarrow> Response \<times> bool" where
  "Response_member kv rb =
     (case kv of (k, v) \<Rightarrow> case rb of (r, bad) \<Rightarrow>
        if foldName k = ''jsonrpc''
        then (case store_string v (Jsonrpc r) of (s, b) \<Rightarrow> (r\<lparr>Jsonrpc := s\<rparr>, bad \<or> b))
        else if foldName k = ''error''
        then (case store_Error_ptr v (Error r) of (e, b) \<Rightarrow> (r\<lparr>Error := e\<rparr>, bad \<or> b))
        else if foldName k = ''result''
        then (r\<lparr>Result := v\<rparr>, bad)
        else if foldName k = ''id''
        then (case store_int32 v (ID r) of (i, b) \<Rightarrow> (r\<lparr>ID := i\<rparr>, bad \<or> b))
        else (r, bad))"

text \<open>
  \<open>json.Unmarshal(b, &response)\<close>: text that is not JSON is a syntax error, \<open>null\<close> leaves
  the struct as it is, an object is decoded member by member, any other value is a type
  error. The struct is returned with the error, as Go leaves it filled in.
\<close>

fun Unmarshal_Response :: "json option \<Rightarrow> Response \<Rightarrow> Response \<times> error option" where
  "Unmarshal_Response None r = (r, Some SyntaxError)"
| "Unmarshal_Response (Some JNull) r = (r, None)"
| "Unmarshal_Response (Some (JObj ms)) r =
     (case fold Response_member ms (r, False) of
        (r', bad) \<Rightarrow> (r', if bad then Some UnmarshalTypeError else None))"
| "Unmarshal_Response (Some _) r = (r, Some UnmarshalTypeError)"

text \<open>
  For \<open>RawResponse\<close> the bytes of the result, whatever they are (also \<open>null\<close>), are
  copied into the \<open>json.RawMessage\<close>.
\<close>

definition RawResponse_member ::
  "string \<times> json \<Rightarrow> RawResponse \<times> bool \<Rightarrow> RawResponse \<times> bool" where
  "RawResponse_member kv rb =
     (case kv of (k, v) \<Rightarrow> case rb of (r, bad) \<Rightarrow>
        if foldName k = ''jsonrpc''
        then (case store_string v (raw_Jsonrpc r) of (s, b) \<Rightarrow> (r\<lparr>raw_Jsonrpc := s\<rparr>, bad \<or> b))
        else if foldName k = ''error''
        then (case store_Error_ptr v (raw_Error r) of (e, b) \<Rightarrow> (r\<lparr>raw_Error := e\<rparr>, bad \<or> b))
        else if foldName k = ''result''
        then (r\<lparr>raw_Result := Some v\<rparr>, bad)
        else if foldName k = ''id''
        then (case store_int32 v (raw_ID r) of (i, b) \<Rightarrow> (r\<lparr>raw_ID := i\<rparr>, bad \<or> b))
        else (r, bad))"

fun Unmarshal_RawResponse ::
  "json option \<Rightarrow> RawResponse \<Rightarrow> RawResponse \<times> error option" where
  "Unmarshal_RawResponse None r = (r, Some SyntaxError)"
| "Unmarshal_RawResponse (Some JNull) r = (r, None)"
| "Unmarshal_RawResponse (Some (JObj ms)) r =
     (case fold RawResponse_member ms (r, False) of
        (r', bad) \<Rightarrow> (r', if bad then Some UnmarshalTypeError else None))"
| "Unmarshal_RawResponse (Some _) r = (r, Some UnmarshalTypeError)"

subsection \<open>\<open>json.Unmarshal\<close> into the caller's target\<close>

text \<open>
  The target of \<open>CallWithErrorParse\<close> has a type of the caller's. It is given by the value
  the caller's pointer refers to and by how a JSON value is decoded into a value of that
  type: the new value, and whether a type error was recorded.
\<close>

type_synonym 't decoder = "json \<Rightarrow> 't \<Rightarrow> 't \<times> bool"

text \<open>
  \<open>json.Unmarshal(rawResult.Result, &result)\<close>: a nil \<open>RawMessage\<close> is the empty input,
  a syntax error; \<open>null\<close> leaves the caller's value alone; anything else is decoded into it.
\<close>

fun Unmarshal_target :: "'t decoder \<Rightarrow> json option \<Rightarrow> 't \<Rightarrow> 't \<times> error option" where
  "Unmarshal_target dec None t = (t, Some SyntaxError)"
| "Unmarshal_target dec (Some JNull) t = (t, None)"
| "Unmarshal_target dec (Some j) t =
     (case dec j t of (t', bad) \<Rightarrow> (t', if bad then Some UnmarshalTypeError else None))"

text \<open>
  Decoding a JSON array into a slice, as \<open>encoding/json\<close> does it: the element at index
  \<open>i\<close> is decoded into the slice's element \<open>i\<close> when the slice has one and into a zero
  value otherwise, and the slice ends with the length of the array. A slice is a list here,
  with no spare capacity.
\<close>

fun decode_elems :: "'s \<Rightarrow> 's decoder \<Rightarrow> json list \<Rightarrow> 's list \<Rightarrow> 's list \<times> bool" where
  "decode_elems zero dec [] old = ([], False)"
| "decode_elems zero dec (x # xs) old =
     (case dec x (case old of [] \<Rightarrow> zero | y # _ \<Rightarrow> y) of
        (v, b) \<Rightarrow>
          (case decode_elems zero dec xs (tl old) of
             (vs, bs) \<Rightarrow> (v # vs, b \<or> bs)))"

fun slice_decoder :: "'s \<Rightarrow> 's decoder \<Rightarrow> ('s list) decoder" where
  "slice_decoder zero dec (JArr xs) old = decode_elems zero dec xs old"
| "slice_decoder zero dec JNull old = ([], False)"
| "slice_decoder zero dec _ old = (old, True)"

subsection \<open>The client and its environment\<close>

text \<open>\<open>type Config struct\<close>, without the logger. The field \<open>Version\<close> is \<open>Config_Version\<close>.\<close>

record Config =
  Url :: string
  TlsNoVerify :: bool
  Serialize :: bool
  Config_Version :: int64

text \<open>What \<open>http.NewRequest\<close> builds and \<open>http.Client.Do\<close> is given.\<close>

record http_request =
  hr_method :: string
  hr_url :: string
  hr_header :: "(string \<times> string) list"
  hr_body :: json

text \<open>
  \<open>type API struct\<close>. The counter \<open>id\<close> is \<open>api_id\<close>. Of the \<open>http.Client\<close> the
  model keeps whether its transport skips TLS verification, and \<open>wire\<close>, the requests
  handed to it so far, oldest first.
\<close>

record API =
  Auth :: string
  UserAgent :: string
  url :: string
  api_id :: int32
  Config :: Config
  insecure :: bool
  wire :: "http_request list"

text \<open>
  What the HTTP exchange gives back: \<open>Do\<close> fails, reading the body fails, or a body arrives.
\<close>

datatype reply = DoFails | ReadFails | Body "json option"

text \<open>
  The world outside the client: the reply to the newest request, given every request handed
  to the HTTP client so far, and the URLs that \<open>http.NewRequest\<close> accepts.
\<close>

record env =
  server :: "http_request list \<Rightarrow> reply"
  url_ok :: "string \<Rightarrow> bool"

subsection \<open>\<open>callBytes\<close>\<close>

definition callBytes :: "env \<Rightarrow> API \<Rightarrow> string \<Rightarrow> iface \<Rightarrow> (error + json option) \<times> API" where
  "callBytes e api method params =
     (let id' = api_id api + 1;
          api1 = api\<lparr>api_id := id'\<rparr>;
          jsonobj = \<lparr>rq_Jsonrpc = ''2.0'', rq_Method = method, rq_Params = params,
                     rq_Auth = [], rq_ID = id'\<rparr>
      in case Marshal_request jsonobj of
           Inl err \<Rightarrow> (Inl err, api1)
         | Inr b \<Rightarrow>
             if \<not> url_ok e (url api1) then (Inl NewRequestError, api1)
             else
               let header = [(''Content-Type'', ''application/json-rpc''),
                             (''User-Agent'', UserAgent api1)]
                            @ (if Auth api1 \<noteq> []
                               then [(''Authorization'', ''Bearer '' @ Auth api1)] else []);
                   req = \<lparr>hr_method = ''POST'', hr_url = url api1, hr_header = header,
                          hr_body = b\<rparr>;
                   api2 = api1\<lparr>wire := wire api1 @ [req]\<rparr>
               in case server e (wire api2) of
                    DoFails \<Rightarrow> (Inl DoError, api2)
                  | ReadFails \<Rightarrow> (Inl ReadError, api2)
                  | Body b' \<Rightarrow> (Inr b', api2))"

subsection \<open>\<open>Call\<close>, \<open>CallWithError\<close>, \<open>CallWithErrorParse\<close>\<close>

definition Call :: "env \<Rightarrow> API \<Rightarrow> string \<Rightarrow> iface \<Rightarrow> (Response \<times> error option) \<times> API" where
  "Call e api method params =
     (case callBytes e api method params of
        (Inl err, api') \<Rightarrow> ((zero_Response, Some err), api')
      | (Inr b, api') \<Rightarrow> (Unmarshal_Response b zero_Response, api'))"

definition CallWithError ::
  "env \<Rightarrow> API \<Rightarrow> string \<Rightarrow> iface \<Rightarrow> (Response \<times> error option) \<times> API" where
  "CallWithError e api method params =
     (case Call e api method params of
        ((response, err), api') \<Rightarrow>
          (case (err, Error response) of
             (None, Some apierr) \<Rightarrow> ((response, Some (APIError apierr)), api')
           | _ \<Rightarrow> ((response, err), api')))"

definition CallWithErrorParse ::
  "env \<Rightarrow> API \<Rightarrow> string \<Rightarrow> iface \<Rightarrow> 't decoder \<Rightarrow> 't \<Rightarrow> (error option \<times> 't) \<times> API" where
  "CallWithErrorParse e api method params dec result =
     (case callBytes e api method params of
        (Inl err, api') \<Rightarrow> ((Some err, result), api')
      | (Inr response, api') \<Rightarrow>
          (case Unmarshal_RawResponse response zero_RawResponse of
             (rawResult, Some err) \<Rightarrow> ((Some err, result), api')
           | (rawResult, None) \<Rightarrow>
               (case raw_Error rawResult of
                  Some apierr \<Rightarrow> ((Some (APIError apierr), result), api')
                | None \<Rightarrow>
                    (case Unmarshal_target dec (raw_Result rawResult) result of
                       (result', err) \<Rightarrow> ((err, result'), api')))))"

subsection \<open>\<open>Login\<close>, \<open>Version\<close>, \<open>NewAPI\<close>\<close>

text \<open>
  A \<open>map[string]string\<close> is marshalled with its keys sorted. The type assertion
  \<open>response.Result.(string)\<close> panics unless the interface holds a string.
\<close>

definition Login :: "env \<Rightarrow> API \<Rightarrow> string \<Rightarrow> string \<Rightarrow> (error + string) outcome \<times> API" where
  "Login e api user password =
     (case (if 50400 \<le> sint (Config_Version (Config api))
            then CallWithError e api ''user.login''
                   (Encodable (JObj [(''password'', JStr password), (''username'', JStr user)]))
            else CallWithError e api ''user.login''
                   (Encodable (JObj [(''password'', JStr password), (''user'', JStr user)]))) of
        ((response, Some err), api') \<Rightarrow> (Returned (Inl err), api')
      | ((response, None), api') \<Rightarrow>
          (case Result response of
             JStr auth \<Rightarrow> (Returned (Inr auth), api'\<lparr>Auth := auth\<rparr>)
           | _ \<Rightarrow> (Panicked, api')))"

definition Version :: "env \<Rightarrow> API \<Rightarrow> (error + string) outcome \<times> API" where
  "Version e api =
     (let auth = Auth api
      in case CallWithError e (api\<lparr>Auth := []\<rparr>) ''APIInfo.version'' (Encodable (JObj [])) of
           ((response, err), api1) \<Rightarrow>
             let api2 = api1\<lparr>Auth := auth\<rparr>
             in case (case err of
                        Some (APIError apierr) \<Rightarrow>
                          if Code apierr = - 32602
                          then CallWithError e api2 ''APIInfo.version'' (Encodable (JObj []))
                          else ((response, err), api2)
                      | _ \<Rightarrow> ((response, err), api2)) of
                  ((response', Some err'), api3) \<Rightarrow> (Returned (Inl err'), api3)
                | ((response', None), api3) \<Rightarrow>
                    (case Result response' of
                       JStr v \<Rightarrow> (Returned (Inr v), api3)
                     | _ \<Rightarrow> (Panicked, api3)))"

text \<open>The struct that \<open>NewAPI\<close> allocates: the new client has sent nothing yet.\<close>

definition new_API :: "Config \<Rightarrow> API" where
  "new_API c = \<lparr>Auth = [], UserAgent = ''github.com/tpretz/go-zabbix-api'', url = Url c,
                 api_id = 0, Config = c, insecure = TlsNoVerify c, wire = []\<rparr>"

text \<open>\<open>NewAPI\<close> returns the pointer to the new client with every outcome but a panic.\<close>

definition NewAPI :: "env \<Rightarrow> Config \<Rightarrow> (API \<times> error option) outcome" where
  "NewAPI e c =
     (let api = new_API c
      in case Version e api of
           (Panicked, api') \<Rightarrow> Panicked
         | (Returned (Inl err), api') \<Rightarrow> Returned (api', Some err)
         | (Returned (Inr rawVersion), api') \<Rightarrow>
             (case parseVersionString rawVersion of
                Inl err \<Rightarrow> Returned (api', Some err)
              | Inr version \<Rightarrow>
                  Returned (api'\<lparr>Config := (Config api')\<lparr>Config_Version := version\<rparr>\<rparr>, None)))"

subsection \<open>Sequences of calls\<close>

text \<open>
  The correlation ids that a sequence of calls through \<open>callBytes\<close> is given: the value
  \<open>atomic.AddInt32\<close> returns, which is the counter after the call.
\<close>

fun call_ids :: "env \<Rightarrow> API \<Rightarrow> (string \<times> iface) list \<Rightarrow> int32 list" where
  "call_ids e api [] = []"
| "call_ids e api (c # cs) =
     (let api' = snd (callBytes e api (fst c) (snd c))
      in api_id api' # call_ids e api' cs)"

subsection \<open>Concrete servers and clients\<close>

text \<open>
  A server that always gives the same reply, the body of a result and of an API error, a
  client as \<open>NewAPI\<close> leaves it (with a token and a negotiated version), and a server that
  behaves as Zabbix 2.2 does on \<open>APIInfo.version\<close>: it rejects the call without an
  \<open>Authorization\<close> header with the code -32602.
\<close>

definition const_env :: "reply \<Rightarrow> env" where
  "const_env r = \<lparr>server = (\<lambda>_. r), url_ok = (\<lambda>_. True)\<rparr>"

definition result_body :: "json \<Rightarrow> reply" where
  "result_body j =
     Body (Some (JObj [(''jsonrpc'', JStr ''2.0''), (''result'', j), (''id'', JNum ''1'')]))"

definition error_body :: "string \<Rightarrow> reply" where
  "error_body code =
     Body (Some (JObj [(''jsonrpc'', JStr ''2.0''),
                       (''error'', JObj [(''code'', JNum code),
                                         (''message'', JStr ''Invalid params.''),
                                         (''data'', JStr ''Not authorised.'')]),
                       (''id'', JNum ''1'')]))"

definition demo_Config :: "int64 \<Rightarrow> Config" where
  "demo_Config v = \<lparr>Url = ''http://host/api_jsonrpc.php'', TlsNoVerify = False,
                    Serialize = False, Config_Version = v\<rparr>"

definition demo_API :: "string \<Rightarrow> int64 \<Rightarrow> API" where
  "demo_API tok v = \<lparr>Auth = tok, UserAgent = ''github.com/tpretz/go-zabbix-api'',
                     url = ''http://host/api_jsonrpc.php'', api_id = 0,
                     Config = demo_Config v, insecure = False, wire = []\<rparr>"

definition zabbix22 :: env where
  "zabbix22 =
     \<lparr>server = (\<lambda>reqs. if map_of (hr_header (last reqs)) ''Authorization'' = None
                       then error_body ''-32602'' else result_body (JStr ''2.2.0'')),
      url_ok = (\<lambda>_. True)\<rparr>"

definition three_calls :: "(string \<times> iface) list" where
  "three_calls = [(''host.get'', Unencodable), (''host.get'', Encodable (JObj [])),
                  (''item.get'', Encodable JNull)]"

text \<open>
  A caller's target: a struct with the one string field \<open>hostid\<close>, given by that field, and
  a result of two such objects.
\<close>

definition host_decoder :: "string decoder" where
  "host_decoder j h =
     (case j of
        JObj ms \<Rightarrow> (case map_of ms ''hostid'' of Some v \<Rightarrow> store_string v h | None \<Rightarrow> (h, False))
      | JNull \<Rightarrow> (h, False)
      | _ \<Rightarrow> (h, True))"

definition two_hosts :: "json list" where
  "two_hosts = [JObj [(''hostid'', JStr ''10084''), (''host'', JStr ''Zabbix server'')],
                JObj [(''hostid'', JStr ''10085'')]]"

section \<open>Version parsing\<close>

subsection \<open>\<open>strconv.ParseInt\<close> reads base-10 integers within \<open>int64\<close>\<close>

lemma foldl_dec_step_ge: "n \<le> foldl dec_step n cs"
proof (induction cs arbitrary: n)
  case Nil
  show ?case by simp
next
  case (Cons c cs)
  have "n \<le> dec_step n c" by (simp add: dec_step_def)
  also have "\<dots> \<le> foldl dec_step (dec_step n c) cs" by (rule Cons.IH)
  finally show ?case by simp
qed

lemma unat_cutoff: "unat cutoff = 1844674407370955162"
  by (simp add: cutoff_def maxUint64_def unat_div unat_word_ariths)

lemma digit_val_le: "is_digit c \<Longrightarrow> digit_val c \<le> 9"
  by (auto simp: is_digit_def digit_val_def)

lemma ParseUint_loop_step:
  assumes d: "is_digit c"
  shows "ParseUint_loop (c # cs) n =
           (if dec_step (unat n) c < 2 ^ 64
            then ParseUint_loop cs (of_nat (dec_step (unat n) c))
            else Inl ErrRange)"
proof -
  have d9: "digit_val c \<le> 9" using d by (rule digit_val_le)
  show ?thesis
  proof (cases "cutoff \<le> n")
    case True
    then have "1844674407370955162 \<le> unat n"
      by (simp add: word_le_nat_alt unat_cutoff)
    then have "\<not> dec_step (unat n) c < 2 ^ 64" by (simp add: dec_step_def)
    with True d show ?thesis by simp
  next
    case False
    then have lt: "unat n < 1844674407370955162"
      by (simp add: word_le_nat_alt unat_cutoff)
    have un': "unat (n * 10) = unat n * 10"
      using lt by (simp add: unat_word_ariths)
    have ud: "unat (of_nat (digit_val c) :: 64 word) = digit_val c"
      using d9 by (simp add: unat_of_nat)
    show ?thesis
    proof (cases "dec_step (unat n) c < 2 ^ 64")
      case True
      then have s: "unat (n * 10 + of_nat (digit_val c)) = unat n * 10 + digit_val c"
        using un' ud by (simp add: unat_word_ariths dec_step_def)
      have eq: "n * 10 + of_nat (digit_val c) = (of_nat (dec_step (unat n) c) :: 64 word)"
        by (simp add: dec_step_def mult.commute)
      have nlt: "\<not> n * 10 + of_nat (digit_val c) < n * 10"
        using s un' by (simp add: word_less_nat_alt)
      have nmax: "\<not> maxUint64 < n * 10 + of_nat (digit_val c)"
        using unsigned_less[of "n * 10 + of_nat (digit_val c)", where 'a=nat] by (simp add: maxUint64_def word_less_nat_alt)
      show ?thesis using d False True nlt nmax eq by (simp add: Let_def)
    next
      case F2: False
      then have ge: "2 ^ 64 \<le> unat n * 10 + digit_val c" by (simp add: dec_step_def)
      have "unat (n * 10 + of_nat (digit_val c)) = (unat n * 10 + digit_val c) mod 2 ^ 64"
        using un' ud by (simp add: unat_word_ariths)
      also have "\<dots> = unat n * 10 + digit_val c - 2 ^ 64"
        using ge lt d9 by (simp add: mod_if)
      finally have "unat (n * 10 + of_nat (digit_val c)) < unat (n * 10)"
        using un' d9 ge by simp
      then have "n * 10 + of_nat (digit_val c) < n * 10" by (simp add: word_less_nat_alt)
      with d False F2 show ?thesis by (simp add: Let_def)
    qed
  qed
qed

lemma ParseUint_loop_digits:
  "\<forall>c\<in>set cs. is_digit c \<Longrightarrow>
   ParseUint_loop cs n =
     (if foldl dec_step (unat n) cs < 2 ^ 64
      then Inr (of_nat (foldl dec_step (unat n) cs)) else Inl ErrRange)"
proof (induction cs arbitrary: n)
  case Nil
  show ?case using unsigned_less[of n, where 'a=nat] by simp
next
  case (Cons c cs)
  then have d: "is_digit c" and ds: "\<forall>c\<in>set cs. is_digit c" by simp_all
  show ?case
  proof (cases "dec_step (unat n) c < 2 ^ 64")
    case True
    then have u: "unat (of_nat (dec_step (unat n) c) :: 64 word) = dec_step (unat n) c"
      by (simp add: unat_of_nat)
    show ?thesis
      using True Cons.IH[OF ds, of "of_nat (dec_step (unat n) c)"]
      by (simp only: ParseUint_loop_step[OF d] u foldl_Cons if_True)
  next
    case False
    have "dec_step (unat n) c \<le> foldl dec_step (dec_step (unat n) c) cs"
      by (rule foldl_dec_step_ge)
    with False have "\<not> foldl dec_step (dec_step (unat n) c) cs < 2 ^ 64" by simp
    with False show ?thesis
      by (simp only: ParseUint_loop_step[OF d] foldl_Cons if_False)
  qed
qed

lemma ParseUint_loop_nondigit:
  "\<not> (\<forall>c\<in>set cs. is_digit c) \<Longrightarrow> isl (ParseUint_loop cs n)"
proof (induction cs arbitrary: n)
  case Nil
  then show ?case by simp
next
  case (Cons c cs)
  show ?case
  proof (cases "is_digit c")
    case True
    with Cons.prems have "\<not> (\<forall>c\<in>set cs. is_digit c)" by simp
    then have "isl (ParseUint_loop cs m)" for m by (rule Cons.IH)
    then show ?thesis by (simp only: ParseUint_loop_step[OF True] split: if_split) simp
  next
    case False
    then show ?thesis by simp
  qed
qed

lemma ParseUint_digits:
  assumes "ds \<noteq> []" "\<forall>c\<in>set ds. is_digit c"
  shows "ParseUint ds =
           (if foldl dec_step 0 ds < 2 ^ 64
            then Inr (of_nat (foldl dec_step 0 ds)) else Inl ErrRange)"
  using assms ParseUint_loop_digits[of ds 0] by (simp add: ParseUint_def)

lemma ParseUint_nondigit:
  "\<not> (ds \<noteq> [] \<and> (\<forall>c\<in>set ds. is_digit c)) \<Longrightarrow> isl (ParseUint ds)"
  using ParseUint_loop_nondigit[of ds 0] by (auto simp: ParseUint_def)

lemma ParseInt_None: "dec_int s = None \<Longrightarrow> isl (ParseInt s)"
proof (cases "s = []")
  case True
  then show ?thesis by (simp add: ParseInt_def)
next
  case False
  assume n: "dec_int s = None"
  define ds where "ds = (if hd s = CHR ''+'' \<or> hd s = CHR ''-'' then tl s else s)"
  from n False have "\<not> (ds \<noteq> [] \<and> (\<forall>c\<in>set ds. is_digit c))"
    by (auto simp: dec_int_def ds_def Let_def split: if_splits)
  then have "isl (ParseUint ds)" by (rule ParseUint_nondigit)
  then obtain e where "ParseUint ds = Inl e" by (cases "ParseUint ds") auto
  with False show ?thesis by (simp add: ParseInt_def Let_def ds_def[symmetric])
qed

lemma ParseInt_Some:
  assumes v: "dec_int s = Some v"
  shows "ParseInt s =
           (if - (2 ^ 63) \<le> v \<and> v < 2 ^ 63 then Inr (word_of_int v) else Inl ErrRange)"
proof -
  define ds where "ds = (if s \<noteq> [] \<and> (hd s = CHR ''+'' \<or> hd s = CHR ''-'') then tl s else s)"
  define u where "u = foldl dec_step 0 ds"
  from v have ds: "ds \<noteq> []" "\<forall>c\<in>set ds. is_digit c"
    by (auto simp: dec_int_def ds_def Let_def split: if_splits)
  from ds(1) have ne: "s \<noteq> []" by (auto simp: ds_def split: if_splits)
  from v ne have vv: "v = (if hd s = CHR ''-'' then - int u else int u)"
    by (auto simp: dec_int_def ds_def u_def Let_def split: if_splits)
  have pu: "ParseUint ds = (if u < 2 ^ 64 then Inr (of_nat u) else Inl ErrRange)"
    unfolding u_def by (rule ParseUint_digits[OF ds])
  have pi: "ParseInt s =
          (case ParseUint ds of
             Inl e \<Rightarrow> Inl e
           | Inr un \<Rightarrow>
               if \<not> hd s = CHR ''-'' \<and> 2 ^ 63 \<le> un then Inl ErrRange
               else if hd s = CHR ''-'' \<and> 2 ^ 63 < un then Inl ErrRange
               else Inr (if hd s = CHR ''-'' then - un else un))"
    using ne by (simp add: ParseInt_def Let_def ds_def)
  show ?thesis
  proof (cases "u < 2 ^ 64")
    case False
    then show ?thesis using pi pu vv by auto
  next
    case True
    then have un: "unat (of_nat u :: 64 word) = u" by (simp add: unat_of_nat)
    have le: "((2 ^ 63 :: 64 word) \<le> of_nat u) = (2 ^ 63 \<le> u)"
      by (simp add: word_le_nat_alt un)
    have lt: "((2 ^ 63 :: 64 word) < of_nat u) = (2 ^ 63 < u)"
      by (simp add: word_less_nat_alt un)
    show ?thesis using pi pu vv True le lt by (auto simp: not_le not_less)
  qed
qed

lemma ParseInt_int64_of:
  "ParseInt s = Inr w \<longleftrightarrow> (\<exists>v. int64_of s = Some v \<and> w = word_of_int v)"
proof (cases "dec_int s")
  case None
  then have "isl (ParseInt s)" by (rule ParseInt_None)
  with None show ?thesis by (auto simp: int64_of_def)
next
  case (Some v)
  then show ?thesis by (auto simp: ParseInt_Some int64_of_def)
qed

lemma ParseInt_int64_of_None: "int64_of s = None \<Longrightarrow> isl (ParseInt s)"
  by (cases "dec_int s") (auto simp: int64_of_def ParseInt_None ParseInt_Some split: if_splits)

subsection \<open>\<open>strings.Split\<close> at the dots\<close>

lemma strings_Split_Nil:
  assumes "dropWhile (\<lambda>c. c \<noteq> sep) s = []"
  shows "strings_Split s sep = [s]"
  by (subst strings_Split.simps, subst assms) simp

lemma strings_Split_Cons:
  assumes "dropWhile (\<lambda>c. c \<noteq> sep) s = x # rest"
  shows "strings_Split s sep = takeWhile (\<lambda>c. c \<noteq> sep) s # strings_Split rest sep"
  by (subst strings_Split.simps, subst assms) simp

lemma strings_Split_nonempty: "strings_Split s sep \<noteq> []"
  by (cases "dropWhile (\<lambda>c. c \<noteq> sep) s") (simp_all add: strings_Split_Nil strings_Split_Cons)

lemma strings_Split_no_sep: "sep \<notin> set s \<Longrightarrow> strings_Split s sep = [s]"
proof (rule strings_Split_Nil)
  assume "sep \<notin> set s"
  then have "\<forall>x\<in>set s. x \<noteq> sep" by blast
  then show "dropWhile (\<lambda>c. c \<noteq> sep) s = []" by (simp add: dropWhile_eq_Nil_conv)
qed

lemma strings_Split_segment:
  assumes "sep \<notin> set s"
  shows "strings_Split (s @ sep # rest) sep = s # strings_Split rest sep"
proof -
  have ns: "\<forall>x\<in>set s. x \<noteq> sep" using assms by blast
  have d: "dropWhile (\<lambda>c. c \<noteq> sep) (s @ sep # rest) = sep # rest"
    using ns by simp
  have t: "takeWhile (\<lambda>c. c \<noteq> sep) (s @ sep # rest) = s"
    using ns by simp
  show ?thesis by (simp add: strings_Split_Cons[OF d] t)
qed

lemma strings_Split_join_dots:
  "segs \<noteq> [] \<Longrightarrow> \<forall>s\<in>set segs. CHR ''.'' \<notin> set s \<Longrightarrow>
   strings_Split (join_dots segs) (CHR ''.'') = segs"
proof (induction segs rule: join_dots.induct)
  case 1
  then show ?case by simp
next
  case (2 s)
  then show ?case by (simp add: strings_Split_no_sep)
next
  case (3 s t ss)
  then show ?case by (simp add: strings_Split_segment)
qed

text \<open>Every string is written from the segments that \<open>strings.Split\<close> cuts it into.\<close>

lemma strings_Split_dot_free: "\<forall>p\<in>set (strings_Split s sep). sep \<notin> set p"
proof (induction s sep rule: strings_Split.induct)
  case (1 s sep)
  show ?case
  proof (cases "dropWhile (\<lambda>c. c \<noteq> sep) s")
    case Nil
    then have "\<forall>x\<in>set s. x \<noteq> sep" by (simp add: dropWhile_eq_Nil_conv)
    then have "sep \<notin> set s" by blast
    with Nil show ?thesis by (simp add: strings_Split_Nil)
  next
    case (Cons x rest)
    have "sep \<notin> set (takeWhile (\<lambda>c. c \<noteq> sep) s)" by (auto dest: set_takeWhileD)
    moreover have "\<forall>p\<in>set (strings_Split rest sep). sep \<notin> set p"
      using "1.IH"[OF Cons] .
    ultimately show ?thesis by (simp add: strings_Split_Cons[OF Cons])
  qed
qed

lemma join_dots_Cons: "ps \<noteq> [] \<Longrightarrow> join_dots (p # ps) = p @ CHR ''.'' # join_dots ps"
  by (cases ps) simp_all

lemma join_dots_strings_Split: "join_dots (strings_Split s (CHR ''.'')) = s"
proof (induction s "CHR ''.''" rule: strings_Split.induct)
  case (1 s)
  show ?case
  proof (cases "dropWhile (\<lambda>c. c \<noteq> CHR ''.'') s")
    case Nil
    then show ?thesis by (simp add: strings_Split_Nil)
  next
    case (Cons x rest)
    have "x = hd (dropWhile (\<lambda>c. c \<noteq> CHR ''.'') s)" using Cons by simp
    moreover have "\<not> (hd (dropWhile (\<lambda>c. c \<noteq> CHR ''.'') s) \<noteq> CHR ''.'')"
      using Cons hd_dropWhile[of "\<lambda>c. c \<noteq> CHR ''.''" s] by fastforce
    ultimately have x: "x = CHR ''.''" by simp
    have ih: "join_dots (strings_Split rest (CHR ''.'')) = rest" using "1.hyps"[OF Cons] .
    have "s = takeWhile (\<lambda>c. c \<noteq> CHR ''.'') s @ dropWhile (\<lambda>c. c \<noteq> CHR ''.'') s" by simp
    then have s: "s = takeWhile (\<lambda>c. c \<noteq> CHR ''.'') s @ CHR ''.'' # rest"
      using Cons x by simp
    have "join_dots (strings_Split s (CHR ''.'')) =
            takeWhile (\<lambda>c. c \<noteq> CHR ''.'') s @ CHR ''.'' # join_dots (strings_Split rest (CHR ''.''))"
      by (simp add: strings_Split_Cons[OF Cons] join_dots_Cons strings_Split_nonempty)
    with ih s show ?thesis by simp
  qed
qed

lemma map_Some_take3:
  assumes "map f (take 3 segs) = map Some vs" "segs \<noteq> []"
  shows "length vs = min 3 (length segs)"
    and "\<And>i. i < length vs \<Longrightarrow> f (segs ! i) = Some (vs ! i)"
proof -
  from assms(1) have "length (map f (take 3 segs)) = length (map Some vs)" by simp
  then show l: "length vs = min 3 (length segs)" by simp
  fix i assume i: "i < length vs"
  from assms(1) have "map f (take 3 segs) ! i = map Some vs ! i" by simp
  with i l show "f (segs ! i) = Some (vs ! i)" by simp
qed

subsection \<open>The weighting\<close>

text \<open>
  Claim C3, as the code has it. A version string is written from its dot-separated
  segments. When each of the first three segments (or each segment, when there are fewer)
  is a base-10 integer that fits \<open>int64\<close>, parsing returns
  \<open>major * 10000 + minor * 100 + patch\<close> in the wrapping arithmetic of \<open>int64\<close>, with
  a missing minor or patch counting 0 and later segments ignored; the result is that very
  integer whenever it fits \<open>int64\<close>. When one of the first three segments is not a base-10
  integer within \<open>int64\<close>, parsing fails.
\<close>

theorem parseVersionString_weighting:
  assumes segs: "segs \<noteq> []" "\<forall>s\<in>set segs. CHR ''.'' \<notin> set s"
  shows "(map int64_of (take 3 segs) = map Some vs \<longrightarrow>
            parseVersionString (join_dots segs) = Inr (word_of_int (version_weight vs)) \<and>
            (- (2 ^ 63) \<le> version_weight vs \<and> version_weight vs < 2 ^ 63 \<longrightarrow>
               sint (word_of_int (version_weight vs) :: 64 word) = version_weight vs)) \<and>
         ((\<exists>s\<in>set (take 3 segs). int64_of s = None) \<longrightarrow>
            isl (parseVersionString (join_dots segs)))"
proof (intro conjI impI)
  have sp: "strings_Split (join_dots segs) (CHR ''.'') = segs"
    using segs by (rule strings_Split_join_dots)
  {
    assume m: "map int64_of (take 3 segs) = map Some vs"
    note len = map_Some_take3(1)[OF m segs(1)]
    note nth = map_Some_take3(2)[OF m segs(1)]
    have p: "i < length vs \<Longrightarrow> ParseInt (segs ! i) = Inr (word_of_int (vs ! i))" for i
      using nth[of i] by (simp add: ParseInt_int64_of)
    have "length segs \<noteq> 0" using segs(1) by simp
    then have "length segs = 1 \<or> length segs = 2 \<or> 3 \<le> length segs" by arith
    then consider (one) "length segs = 1" | (two) "length segs = 2" | (more) "3 \<le> length segs"
      by blast
    then show "parseVersionString (join_dots segs) = Inr (word_of_int (version_weight vs))"
    proof cases
      case one
      with len obtain a where vs: "vs = [a]" by (cases vs) auto
      show ?thesis using one p[of 0] vs
        by (simp add: parseVersionString_def sp Let_def)
    next
      case two
      with len obtain a b where vs: "vs = [a, b]"
        by (cases vs; cases "tl vs") auto
      show ?thesis using two p[of 0] p[of 1] vs
        by (simp add: parseVersionString_def sp Let_def)
    next
      case more
      with len obtain a b c where vs: "vs = [a, b, c]"
        by (cases vs; cases "tl vs"; cases "tl (tl vs)") auto
      show ?thesis using more p[of 0] p[of 1] p[of 2] vs
        by (simp add: parseVersionString_def sp Let_def)
    qed
  }
  {
    assume "- (2 ^ 63) \<le> version_weight vs \<and> version_weight vs < 2 ^ 63"
    then show "sint (word_of_int (version_weight vs) :: 64 word) = version_weight vs"
      by (simp add: sint_sbintrunc' signed_take_bit_int_eq_self)
  }
  {
    assume "\<exists>s\<in>set (take 3 segs). int64_of s = None"
    then obtain i where i: "i < length (take 3 segs)" "int64_of (take 3 segs ! i) = None"
      by (auto simp: in_set_conv_nth)
    then have i3: "i < 3" "i < length segs" and n: "int64_of (segs ! i) = None" by simp_all
    from n have e: "isl (ParseInt (segs ! i))" by (rule ParseInt_int64_of_None)
    from i3 consider "i = 0" | "i = 1" "1 < length segs" | "i = 2" "2 < length segs" by force
    then show "isl (parseVersionString (join_dots segs))"
    proof cases
      case 1
      with e show ?thesis
        by (auto simp: parseVersionString_def sp Let_def split: sum.splits)
    next
      case 2
      with e show ?thesis
        by (auto simp: parseVersionString_def sp Let_def split: sum.splits)
    next
      case 3
      with e show ?thesis
        by (auto simp: parseVersionString_def sp Let_def split: sum.splits)
    qed
  }
qed

theorem parseVersionString_weighting_witness:
  "parseVersionString ''5.4.0'' = Inr 50400 \<and>
   parseVersionString ''3.0'' = Inr 30000 \<and>
   parseVersionString ''2'' = Inr 20000 \<and>
   parseVersionString ''5.4.0.1'' = Inr 50400 \<and>
   sint (50400 :: 64 word) = 50400 \<and>
   isl (parseVersionString ''5.x'')"
proof -
  have i: "int64_of ''5'' = Some 5" "int64_of ''4'' = Some 4" "int64_of ''0'' = Some 0"
    "int64_of ''3'' = Some 3" "int64_of ''2'' = Some 2" "int64_of ''x'' = None"
    by (simp_all add: int64_of_def dec_int_def dec_step_def is_digit_def digit_val_def)
  from parseVersionString_weighting [of "[''5'', ''4'', ''0'']" "[5, 4, 0]"] i
  have 1: "parseVersionString ''5.4.0'' = Inr 50400" by simp
  from parseVersionString_weighting [of "[''3'', ''0'']" "[3, 0]"] i
  have 2: "parseVersionString ''3.0'' = Inr 30000" by simp
  from parseVersionString_weighting [of "[''2'']" "[2]"] i
  have 3: "parseVersionString ''2'' = Inr 20000" by simp
  from parseVersionString_weighting [of "[''5'', ''4'', ''0'', ''1'']" "[5, 4, 0]"] i
  have 4: "parseVersionString ''5.4.0.1'' = Inr 50400 \<and> sint (50400 :: 64 word) = 50400"
    by simp
  from parseVersionString_weighting [of "[''5'', ''x'']" "[]"] i
  have 5: "isl (parseVersionString ''5.x'')"
    by simp
  from 1 2 3 4 5 show ?thesis by simp
qed

text \<open>
  Claim C3 as it is written fails on \<open>int64\<close>: a segment that is a base-10 integer but does
  not fit \<open>int64\<close> is refused, and a major version whose weight exceeds \<open>int64\<close> wraps
  around to a negative number.
\<close>

theorem parseVersionString_int64_counterexample:
  "parseVersionString ''99999999999999999999'' = Inl ErrRange \<and>
   parseVersionString ''922337203685478'' = Inr (- 9223372036854771616) \<and>
   sint (- 9223372036854771616 :: 64 word) \<noteq> 922337203685478 * 10000"
  by (simp add: parseVersionString_def strings_Split.simps ParseInt_def ParseUint_def
      is_digit_def digit_val_def cutoff_def maxUint64_def)

section \<open>What a call changes\<close>

text \<open>
  \<open>callBytes\<close> adds one to the counter whatever happens, leaves the token, the
  configuration and the URL alone, and hands at most one request to the HTTP client. The
  three call variants change the client exactly as their one \<open>callBytes\<close> does.
\<close>

lemmas eval_defs =
  Login_def Version_def NewAPI_def CallWithError_def Call_def CallWithErrorParse_def
  callBytes_def Marshal_request_def
  const_env_def result_body_def error_body_def demo_API_def demo_Config_def zabbix22_def
  zero_Response_def zero_RawResponse_def zero_Error_def
  Response_member_def RawResponse_member_def Error_member_def foldName_def lower_def
  ParseInt_def ParseUint_def is_digit_def digit_val_def cutoff_def maxUint64_def Let_def
  word_le_nat_alt word_less_nat_alt

lemma callBytes_api_id: "api_id (snd (callBytes e api m p)) = api_id api + 1"
  by (simp add: callBytes_def Let_def split: sum.splits reply.splits)

lemma callBytes_Auth: "Auth (snd (callBytes e api m p)) = Auth api"
  by (simp add: callBytes_def Let_def split: sum.splits reply.splits)

lemma callBytes_Config: "Config (snd (callBytes e api m p)) = Config api"
  by (simp add: callBytes_def Let_def split: sum.splits reply.splits)

lemma callBytes_url: "url (snd (callBytes e api m p)) = url api"
  by (simp add: callBytes_def Let_def split: sum.splits reply.splits)

lemma Call_snd: "snd (Call e api m p) = snd (callBytes e api m p)"
  by (simp add: Call_def split: prod.splits sum.splits)

lemma CallWithError_snd: "snd (CallWithError e api m p) = snd (callBytes e api m p)"
  using Call_snd[of e api m p]
  by (cases "Call e api m p") (auto simp: CallWithError_def split: option.splits)

lemma CallWithErrorParse_snd:
  "snd (CallWithErrorParse e api m p dec t) = snd (callBytes e api m p)"
  by (simp add: CallWithErrorParse_def split: prod.splits sum.splits option.splits)

text \<open>The request that goes out when the parameters encode and the URL is accepted.\<close>

lemma callBytes_sent:
  assumes "url_ok e (url api)"
  shows "wire (snd (callBytes e api m (Encodable p))) =
           wire api @
           [\<lparr>hr_method = ''POST'', hr_url = url api,
             hr_header = [(''Content-Type'', ''application/json-rpc''), (''User-Agent'', UserAgent api)]
                         @ (if Auth api \<noteq> [] then [(''Authorization'', ''Bearer '' @ Auth api)] else []),
             hr_body = JObj [(''jsonrpc'', JStr ''2.0''), (''method'', JStr m), (''params'', p),
                             (''id'', JNum (FormatInt (sint (api_id api + 1))))]\<rparr>]"
  using assms
  by (simp add: callBytes_def Marshal_request_def Let_def split: reply.splits)

lemma callBytes_wire_cases:
  "wire (snd (callBytes e api m p)) = wire api \<or>
   (\<exists>b. wire (snd (callBytes e api m p)) =
      wire api @
      [\<lparr>hr_method = ''POST'', hr_url = url api,
        hr_header = [(''Content-Type'', ''application/json-rpc''), (''User-Agent'', UserAgent api)]
                    @ (if Auth api \<noteq> [] then [(''Authorization'', ''Bearer '' @ Auth api)] else []),
        hr_body = b\<rparr>])"
  by (simp add: callBytes_def Let_def split: sum.splits reply.splits)

lemma callBytes_new_requests_header:
  "\<forall>req\<in>set (drop (length (wire api)) (wire (snd (callBytes e api m p)))).
     map_of (hr_header req) ''Authorization'' =
       (if Auth api = [] then None else Some (''Bearer '' @ Auth api))"
  using callBytes_wire_cases[of e api m p] by auto

section \<open>Authentication on the wire\<close>

text \<open>
  Claim C1, as the code has it. For every call that sends a request while the token is not
  empty, the request carries the header \<open>Authorization: Bearer <token>\<close>, and the
  serialized envelope has no \<open>auth\<close> member: \<open>callBytes\<close> never sets the \<open>Auth\<close> field of
  the envelope, so only the header carries the token.
\<close>

theorem callBytes_bearer_header_only:
  assumes "Auth api \<noteq> []" and "url_ok e (url api)"
  shows "\<exists>req. wire (snd (callBytes e api method (Encodable p))) = wire api @ [req] \<and>
           map_of (hr_header req) ''Authorization'' = Some (''Bearer '' @ Auth api) \<and>
           json_member (hr_body req) ''auth'' = None"
  using assms by (simp add: callBytes_sent)

theorem callBytes_bearer_header_only_witness:
  "Auth (demo_API ''tok'' 50400) \<noteq> [] \<and>
   url_ok (const_env (result_body (JArr []))) (url (demo_API ''tok'' 50400)) \<and>
   (\<exists>req. wire (snd (callBytes (const_env (result_body (JArr []))) (demo_API ''tok'' 50400) ''host.get''
                        (Encodable (JObj [])))) = wire (demo_API ''tok'' 50400) @ [req] \<and>
          map_of (hr_header req) ''Authorization'' = Some (''Bearer '' @ Auth (demo_API ''tok'' 50400)) \<and>
          json_member (hr_body req) ''auth'' = None)"
proof -
  have a: "Auth (demo_API ''tok'' 50400) \<noteq> []" by (simp add: demo_API_def)
  have u: "url_ok (const_env (result_body (JArr []))) (url (demo_API ''tok'' 50400))" by (simp add: const_env_def)
  from callBytes_bearer_header_only [OF a u, of "''host.get''" "JObj []"] a u
  show ?thesis by blast
qed

text \<open>
  Claim C1 as it is written fails: with the token \<open>tok\<close> the envelope on the wire has no
  \<open>auth\<close> member holding it.
\<close>

theorem callBytes_envelope_auth_counterexample:
  "Auth (demo_API ''tok'' 50400) = ''tok'' \<and>
   json_member
     (hr_body (last (wire (snd (callBytes (const_env (result_body (JArr []))) (demo_API ''tok'' 50400) ''host.get''
                                  (Encodable (JObj []))))))) ''auth''
   \<noteq> Some (JStr ''tok'')"
  by (simp add: callBytes_def Marshal_request_def const_env_def result_body_def demo_API_def
      Let_def)

section \<open>Panics\<close>

text \<open>
  Claim C2 says that no public operation panics on a protocol-level failure. The code does:
  on the well-formed response \<open>{"jsonrpc":"2.0","result":123,"id":1}\<close> the unchecked type
  assertion \<open>response.Result.(string)\<close> of \<open>Login\<close> and of \<open>Version\<close> panics instead of
  returning an error, and so does \<open>NewAPI\<close>, which calls \<open>Version\<close>.
\<close>

theorem Login_Version_panic_on_non_string_result:
  "fst (Login (const_env (result_body (JNum ''123''))) (demo_API [] 50400) ''Admin'' ''zabbix'') = Panicked \<and>
   fst (Version (const_env (result_body (JNum ''123''))) (demo_API [] 50400)) = Panicked \<and>
   NewAPI (const_env (result_body (JNum ''123''))) (demo_Config 0) = Panicked"
  by (simp add: eval_defs new_API_def)

section \<open>Login\<close>

text \<open>
  Claim C4. For every negotiated version \<open>v\<close>, \<open>Login(user, password)\<close> issues the call
  \<open>user.login\<close> whose parameter keys are \<open>username\<close> and \<open>password\<close> if \<open>v \<ge> 50400\<close>,
  and \<open>user\<close> and \<open>password\<close> otherwise; the request is the one request that \<open>Login\<close>
  sends (when \<open>http.NewRequest\<close> accepts the URL).
\<close>

theorem Login_parameter_keys:
  assumes "url_ok e (url api)"
  shows "\<exists>req ps.
           wire (snd (Login e api user password)) = wire api @ [req] \<and>
           json_member (hr_body req) ''method'' = Some (JStr ''user.login'') \<and>
           json_member (hr_body req) ''params'' = Some ps \<and>
           json_keys ps =
             (if 50400 \<le> sint (Config_Version (Config api))
              then {''username'', ''password''} else {''user'', ''password''}) \<and>
           json_member ps ''password'' = Some (JStr password) \<and>
           json_member ps
             (if 50400 \<le> sint (Config_Version (Config api)) then ''username'' else ''user'')
             = Some (JStr user)"
proof -
  let ?p = "\<lambda>k. Encodable (JObj [(''password'', JStr password), (k, JStr user)])"
  have w: "wire (snd (Login e api user password)) =
           wire (snd (callBytes e api ''user.login''
             (?p (if 50400 \<le> sint (Config_Version (Config api)) then ''username'' else ''user''))))"
    using CallWithError_snd[of e api "''user.login''" "?p ''username''"]
          CallWithError_snd[of e api "''user.login''" "?p ''user''"]
    by (auto simp: Login_def split: prod.splits option.splits json.splits)
  show ?thesis
    unfolding w using assms by (auto simp: callBytes_sent)
qed

theorem Login_parameter_keys_witness:
  "url_ok (const_env (result_body (JStr ''0424bd59b807674191e7d77572075f33''))) (url (demo_API [] 50400)) \<and>
   url_ok (const_env (result_body (JStr ''0424bd59b807674191e7d77572075f33''))) (url (demo_API [] 30000)) \<and>
   (\<exists>req ps. wire (snd (Login (const_env (result_body (JStr ''0424bd59b807674191e7d77572075f33''))) (demo_API [] 50400) ''Admin'' ''zabbix'')) = [req] \<and>
        json_member (hr_body req) ''params'' = Some ps \<and>
        json_keys ps = {''username'', ''password''}) \<and>
   (\<exists>req ps. wire (snd (Login (const_env (result_body (JStr ''0424bd59b807674191e7d77572075f33''))) (demo_API [] 30000) ''Admin'' ''zabbix'')) = [req] \<and>
        json_member (hr_body req) ''params'' = Some ps \<and>
        json_keys ps = {''user'', ''password''})"
proof -
  have u: "url_ok (const_env (result_body (JStr ''0424bd59b807674191e7d77572075f33''))) (url (demo_API [] v))" for v
    by (simp add: const_env_def)
  have v1: "50400 \<le> sint (Config_Version (Config (demo_API [] 50400)))"
    by (simp add: demo_API_def demo_Config_def)
  have v2: "\<not> 50400 \<le> sint (Config_Version (Config (demo_API [] 30000)))"
    by (simp add: demo_API_def demo_Config_def)
  have w: "wire (demo_API [] v) = []" for v by (simp add: demo_API_def)
  from Login_parameter_keys [OF u, of 50400 "''Admin''" "''zabbix''"] v1
  have 1: "\<exists>req ps. wire (snd (Login (const_env (result_body (JStr ''0424bd59b807674191e7d77572075f33''))) (demo_API [] 50400) ''Admin'' ''zabbix'')) = [req] \<and>
        json_member (hr_body req) ''params'' = Some ps \<and>
        json_keys ps = {''username'', ''password''}"
    by (simp only: w append_Nil if_True) blast
  from Login_parameter_keys [OF u, of 30000 "''Admin''" "''zabbix''"] v2
  have 2: "\<exists>req ps. wire (snd (Login (const_env (result_body (JStr ''0424bd59b807674191e7d77572075f33''))) (demo_API [] 30000) ''Admin'' ''zabbix'')) = [req] \<and>
        json_member (hr_body req) ''params'' = Some ps \<and>
        json_keys ps = {''user'', ''password''}"
    by (simp only: w append_Nil if_False) blast
  from u 1 2 show ?thesis by blast
qed

section \<open>Version negotiation\<close>

text \<open>
  Claim C5. \<open>Version\<close> first issues the version-info call with the token cleared, so no
  request of that call carries an \<open>Authorization\<close> header. If and only if that call returns
  an API error with the code -32602, it issues exactly one second call, with the token that
  was active on entry restored (and sent as the bearer header when it is not empty); then
  the error or the string result of the second call is what \<open>Version\<close> returns. For any
  other outcome of the first call nothing more is sent, the counter has advanced by one, and
  the first call's error or string result is returned.
\<close>

theorem Version_retry:
  "let first = CallWithError e (api\<lparr>Auth := []\<rparr>) ''APIInfo.version'' (Encodable (JObj []));
       api1 = (snd first)\<lparr>Auth := Auth api\<rparr>;
       second = CallWithError e api1 ''APIInfo.version'' (Encodable (JObj []));
       retry = (\<exists>x. snd (fst first) = Some (APIError x) \<and> Code x = - 32602)
   in (\<forall>req\<in>set (drop (length (wire api)) (wire (snd first))).
         map_of (hr_header req) ''Authorization'' = None) \<and>
      (retry \<longrightarrow>
         snd (Version e api) = snd second \<and>
         api_id (snd (Version e api)) = api_id api + 2 \<and>
         (\<forall>req\<in>set (drop (length (wire api1)) (wire (snd second))).
            map_of (hr_header req) ''Authorization'' =
              (if Auth api = [] then None else Some (''Bearer '' @ Auth api))) \<and>
         (\<forall>err. snd (fst second) = Some err \<longrightarrow> fst (Version e api) = Returned (Inl err)) \<and>
         (\<forall>v. snd (fst second) = None \<and> Result (fst (fst second)) = JStr v \<longrightarrow>
              fst (Version e api) = Returned (Inr v))) \<and>
      (\<not> retry \<longrightarrow>
         snd (Version e api) = api1 \<and>
         api_id (snd (Version e api)) = api_id api + 1 \<and>
         wire (snd (Version e api)) = wire (snd first) \<and>
         (\<forall>err. snd (fst first) = Some err \<longrightarrow> fst (Version e api) = Returned (Inl err)) \<and>
         (\<forall>v. snd (fst first) = None \<and> Result (fst (fst first)) = JStr v \<longrightarrow>
              fst (Version e api) = Returned (Inr v)))"
proof -
  let ?m = "''APIInfo.version''" and ?p = "Encodable (JObj [])"
  obtain r1 err1 a1 where f: "CallWithError e (api\<lparr>Auth := []\<rparr>) ?m ?p = ((r1, err1), a1)"
    by (metis prod.collapse)
  obtain r2 err2 a2 where s: "CallWithError e (a1\<lparr>Auth := Auth api\<rparr>) ?m ?p = ((r2, err2), a2)"
    by (metis prod.collapse)
  have a1: "a1 = snd (callBytes e (api\<lparr>Auth := []\<rparr>) ?m ?p)"
    using CallWithError_snd[of e "api\<lparr>Auth := []\<rparr>" ?m ?p] f by simp
  have a2: "a2 = snd (callBytes e (a1\<lparr>Auth := Auth api\<rparr>) ?m ?p)"
    using CallWithError_snd[of e "a1\<lparr>Auth := Auth api\<rparr>" ?m ?p] s by simp
  have id1: "api_id a1 = api_id api + 1" unfolding a1 by (simp add: callBytes_api_id)
  have id2: "api_id a2 = api_id api + 2" unfolding a2 by (simp add: callBytes_api_id id1)
  have h1: "\<forall>req\<in>set (drop (length (wire api)) (wire a1)).
              map_of (hr_header req) ''Authorization'' = None"
    using callBytes_new_requests_header[of "api\<lparr>Auth := []\<rparr>" e ?m ?p] unfolding a1 by simp
  have h2: "\<forall>req\<in>set (drop (length (wire (a1\<lparr>Auth := Auth api\<rparr>))) (wire a2)).
              map_of (hr_header req) ''Authorization'' =
                (if Auth api = [] then None else Some (''Bearer '' @ Auth api))"
    using callBytes_new_requests_header[of "a1\<lparr>Auth := Auth api\<rparr>" e ?m ?p] unfolding a2 by simp
  define retry where "retry = (\<exists>x. err1 = Some (APIError x) \<and> Code x = - 32602)"
  have v: "Version e api =
     (case (if retry then ((r2, err2), a2) else ((r1, err1), a1\<lparr>Auth := Auth api\<rparr>)) of
        ((response', Some err'), api3) \<Rightarrow> (Returned (Inl err'), api3)
      | ((response', None), api3) \<Rightarrow>
          (case Result response' of
             JStr v \<Rightarrow> (Returned (Inr v), api3)
           | _ \<Rightarrow> (Panicked, api3)))"
    unfolding Version_def Let_def f s retry_def
    by (auto simp: s split: option.splits error.splits)
  have vr: "retry \<Longrightarrow> snd (Version e api) = a2 \<and>
         (\<forall>err. err2 = Some err \<longrightarrow> fst (Version e api) = Returned (Inl err)) \<and>
         (\<forall>v. err2 = None \<and> Result r2 = JStr v \<longrightarrow> fst (Version e api) = Returned (Inr v))"
    unfolding v by (auto split: option.splits json.splits)
  have vn: "\<not> retry \<Longrightarrow> snd (Version e api) = a1\<lparr>Auth := Auth api\<rparr> \<and>
         (\<forall>err. err1 = Some err \<longrightarrow> fst (Version e api) = Returned (Inl err)) \<and>
         (\<forall>v. err1 = None \<and> Result r1 = JStr v \<longrightarrow> fst (Version e api) = Returned (Inr v))"
    unfolding v by (auto split: option.splits json.splits)
  show ?thesis
    unfolding Let_def f s fst_conv snd_conv retry_def[symmetric]
    using h1 h2 vr vn id1 id2 by simp
qed

theorem Version_retry_witness:
  "fst (Version zabbix22 (demo_API ''tok'' 0)) = Returned (Inr ''2.2.0'') \<and>
   api_id (snd (Version zabbix22 (demo_API ''tok'' 0))) = 2 \<and>
   fst (Version (const_env (result_body (JStr ''5.4.0''))) (demo_API ''tok'' 0)) = Returned (Inr ''5.4.0'') \<and>
   api_id (snd (Version (const_env (result_body (JStr ''5.4.0''))) (demo_API ''tok'' 0))) = 1"
proof -
  let ?m = "''APIInfo.version''" and ?p = "Encodable (JObj [])"
  let ?a = "demo_API ''tok'' 0"
  let ?x = "\<lparr>Code = - 32602, Message = ''Invalid params.'', Data = ''Not authorised.''\<rparr>"
  let ?e5 = "const_env (result_body (JStr ''5.4.0''))"
  let ?first = "CallWithError zabbix22 (?a\<lparr>Auth := []\<rparr>) ?m ?p"
  let ?second = "CallWithError zabbix22 ((snd ?first)\<lparr>Auth := Auth ?a\<rparr>) ?m ?p"
  let ?first5 = "CallWithError ?e5 (?a\<lparr>Auth := []\<rparr>) ?m ?p"
  have i: "api_id ?a = 0" by (simp add: demo_API_def)
  have f: "snd (fst ?first) = Some (APIError ?x)"
    by (simp add: eval_defs)
  have retry: "\<exists>x. snd (fst ?first) = Some (APIError x) \<and> Code x = - 32602"
    by (rule exI[of _ ?x]) (simp add: f)
  have s: "snd (fst ?second) = None \<and> Result (fst (fst ?second)) = JStr ''2.2.0''"
    by (simp add: eval_defs)
  have f5: "snd (fst ?first5) = None \<and> Result (fst (fst ?first5)) = JStr ''5.4.0''"
    by (simp add: eval_defs)
  then have noretry: "\<not> (\<exists>x. snd (fst ?first5) = Some (APIError x) \<and> Code x = - 32602)"
    by simp
  note t = Version_retry [of zabbix22 ?a, unfolded Let_def]
  note t5 = Version_retry [of ?e5 ?a, unfolded Let_def]
  from t retry s have 1: "fst (Version zabbix22 ?a) = Returned (Inr ''2.2.0'')" by blast
  from t retry have "api_id (snd (Version zabbix22 ?a)) = api_id ?a + 2" by blast
  then have 2: "api_id (snd (Version zabbix22 ?a)) = 2" by (simp add: i)
  from t5 noretry f5 have 3: "fst (Version ?e5 ?a) = Returned (Inr ''5.4.0'')" by blast
  from t5 noretry have "api_id (snd (Version ?e5 ?a)) = api_id ?a + 1" by blast
  then have 4: "api_id (snd (Version ?e5 ?a)) = 1" by (simp add: i)
  from 1 2 3 4 show ?thesis by simp
qed

section \<open>The call variants\<close>

lemma Call_no_APIError: "snd (fst (Call e api m p)) \<noteq> Some (APIError x)"
proof (cases "callBytes e api m p")
  case (Pair r api')
  show ?thesis
  proof (cases r)
    case (Inl err)
    with Pair have "err \<noteq> APIError x"
      by (auto simp: callBytes_def Let_def Marshal_request_def
          split: sum.splits reply.splits iface.splits if_splits)
    with Pair Inl show ?thesis by (simp add: Call_def)
  next
    case (Inr b)
    have "snd (Unmarshal_Response b r0) \<noteq> Some (APIError x)" for r0
      by (cases "(b, r0)" rule: Unmarshal_Response.cases) (auto split: prod.splits)
    with Pair Inr show ?thesis by (simp add: Call_def)
  qed
qed

text \<open>
  Claim C6. The error that \<open>Call\<close> returns is never an API error: when the body
  decodes, \<open>Call\<close> returns the decoded envelope with a nil error, and an API error stays
  in the envelope's \<open>Error\<close> field. \<open>CallWithError\<close> returns the same envelope and leaves the
  client in the same state, and its error is the API error \<open>x\<close> exactly when the error of
  \<open>Call\<close> is nil and the envelope's \<open>Error\<close> field holds \<open>x\<close>; otherwise it is the error
  of \<open>Call\<close>.
\<close>

theorem Call_and_CallWithError:
  "snd (fst (Call e api m p)) \<noteq> Some (APIError x) \<and>
   (callBytes e api m p = (Inr b, api') \<and> snd (Unmarshal_Response b zero_Response) = None \<longrightarrow>
      Call e api m p = ((fst (Unmarshal_Response b zero_Response), None), api')) \<and>
   fst (fst (CallWithError e api m p)) = fst (fst (Call e api m p)) \<and>
   snd (CallWithError e api m p) = snd (Call e api m p) \<and>
   (snd (fst (CallWithError e api m p)) = Some (APIError x) \<longleftrightarrow>
      snd (fst (Call e api m p)) = None \<and> Error (fst (fst (Call e api m p))) = Some x) \<and>
   (\<not> (snd (fst (Call e api m p)) = None \<and> Error (fst (fst (Call e api m p))) \<noteq> None) \<longrightarrow>
      snd (fst (CallWithError e api m p)) = snd (fst (Call e api m p)))"
proof -
  obtain r err api'' where c: "Call e api m p = ((r, err), api'')"
    by (metis prod.collapse)
  have n: "err \<noteq> Some (APIError x)" using Call_no_APIError[of e api m p x] c by simp
  have d: "callBytes e api m p = (Inr b, api') \<and> snd (Unmarshal_Response b zero_Response) = None \<longrightarrow>
      Call e api m p = ((fst (Unmarshal_Response b zero_Response), None), api')"
    by (cases "Unmarshal_Response b zero_Response") (simp add: Call_def)
  have r: "fst (fst (CallWithError e api m p)) = fst (fst (Call e api m p)) \<and>
   snd (CallWithError e api m p) = snd (Call e api m p) \<and>
   (snd (fst (CallWithError e api m p)) = Some (APIError x) \<longleftrightarrow>
      snd (fst (Call e api m p)) = None \<and> Error (fst (fst (Call e api m p))) = Some x) \<and>
   (\<not> (snd (fst (Call e api m p)) = None \<and> Error (fst (fst (Call e api m p))) \<noteq> None) \<longrightarrow>
      snd (fst (CallWithError e api m p)) = snd (fst (Call e api m p)))"
    using c n by (auto simp: CallWithError_def split: option.splits)
  from Call_no_APIError[of e api m p x] d r show ?thesis by blast
qed

theorem Call_and_CallWithError_witness:
  "snd (fst (Call (const_env (error_body ''-32500'')) (demo_API [] 50400) ''host.get'' (Encodable (JObj [])))) = None \<and>
   Error (fst (fst (Call (const_env (error_body ''-32500'')) (demo_API [] 50400) ''host.get'' (Encodable (JObj [])))))
     = Some \<lparr>Code = - 32500, Message = ''Invalid params.'', Data = ''Not authorised.''\<rparr> \<and>
   snd (fst (CallWithError (const_env (error_body ''-32500'')) (demo_API [] 50400) ''host.get'' (Encodable (JObj []))))
     = Some (APIError \<lparr>Code = - 32500, Message = ''Invalid params.'', Data = ''Not authorised.''\<rparr>) \<and>
   snd (fst (CallWithError (const_env DoFails) (demo_API [] 50400) ''host.get'' (Encodable (JObj []))))
     = Some DoError"
proof -
  let ?e = "const_env (error_body ''-32500'')" and ?a = "demo_API [] 50400"
  let ?x = "\<lparr>Code = - 32500, Message = ''Invalid params.'', Data = ''Not authorised.''\<rparr>"
  have c: "snd (fst (Call ?e ?a ''host.get'' (Encodable (JObj [])))) = None \<and>
        Error (fst (fst (Call ?e ?a ''host.get'' (Encodable (JObj []))))) = Some ?x"
    by (simp add: eval_defs)
  have d: "snd (fst (Call (const_env DoFails) ?a ''host.get'' (Encodable (JObj [])))) = Some DoError"
    by (simp add: eval_defs)
  from Call_and_CallWithError [of ?e ?a "''host.get''" "Encodable (JObj [])" ?x] c
  have 1: "snd (fst (CallWithError ?e ?a ''host.get'' (Encodable (JObj [])))) = Some (APIError ?x)"
    by simp
  from Call_and_CallWithError [of "const_env DoFails" ?a "''host.get''" "Encodable (JObj [])" ?x] d
  have 2: "snd (fst (CallWithError (const_env DoFails) ?a ''host.get'' (Encodable (JObj [])))) = Some DoError"
    by simp
  from c 1 2 show ?thesis by simp
qed

lemma decode_elems_length: "length (fst (decode_elems zero dec xs old)) = length xs"
  by (induction xs arbitrary: old) (simp_all add: case_prod_unfold)

lemma decode_elems_nth:
  "i < length xs \<Longrightarrow>
   fst (decode_elems zero dec xs old) ! i =
     fst (dec (xs ! i) (if i < length old then old ! i else zero))"
proof (induction xs arbitrary: old i)
  case Nil
  then show ?case by simp
next
  case (Cons x xs)
  show ?case
  proof (cases i)
    case 0
    then show ?thesis by (cases old) (auto split: prod.splits)
  next
    case (Suc k)
    with Cons.prems have k: "k < length xs" by simp
    have "fst (decode_elems zero dec (x # xs) old) ! i = fst (decode_elems zero dec xs (tl old)) ! k"
      using Suc by (auto split: prod.splits)
    also have "\<dots> = fst (dec (xs ! k) (if k < length (tl old) then tl old ! k else zero))"
      by (rule Cons.IH[OF k])
    also have "(if k < length (tl old) then tl old ! k else zero) =
               (if i < length old then old ! i else zero)"
      using Suc by (cases old) auto
    finally show ?thesis using Suc by simp
  qed
qed

text \<open>
  Claim C7. When the request got a body and the body parses as the deferred-decode
  envelope: if the envelope carries an API error, \<open>CallWithErrorParse\<close> returns it and the
  target is as it was; otherwise the raw result is decoded into the target. When the raw
  result is a JSON array and the target a slice, the slice ends up with one element for each
  element of the array, each decoded from the element at its index.
\<close>

theorem CallWithErrorParse_decoding:
  assumes "callBytes e api m p = (Inr b, api')"
    and "Unmarshal_RawResponse b zero_RawResponse = (raw, None)"
  shows "(raw_Error raw = Some x \<longrightarrow>
            CallWithErrorParse e api m p dec t = ((Some (APIError x), t), api')) \<and>
         (raw_Error raw = None \<longrightarrow>
            CallWithErrorParse e api m p dec t =
              (prod.swap (Unmarshal_target dec (raw_Result raw) t), api')) \<and>
         (raw_Error raw = None \<and> raw_Result raw = Some (JArr xs) \<longrightarrow>
            length (snd (fst (CallWithErrorParse e api m p (slice_decoder zero edec) old))) = length xs \<and>
            (\<forall>i<length xs.
               snd (fst (CallWithErrorParse e api m p (slice_decoder zero edec) old)) ! i =
                 fst (edec (xs ! i) (if i < length old then old ! i else zero))))"
proof (intro conjI impI)
  assume "raw_Error raw = Some x"
  with assms show "CallWithErrorParse e api m p dec t = ((Some (APIError x), t), api')"
    by (simp add: CallWithErrorParse_def)
next
  assume "raw_Error raw = None"
  with assms show "CallWithErrorParse e api m p dec t =
              (prod.swap (Unmarshal_target dec (raw_Result raw) t), api')"
    by (simp add: CallWithErrorParse_def split: prod.splits)
next
  assume a: "raw_Error raw = None \<and> raw_Result raw = Some (JArr xs)"
  with assms have c: "snd (fst (CallWithErrorParse e api m p (slice_decoder zero edec) old)) =
      fst (decode_elems zero edec xs old)"
    by (simp add: CallWithErrorParse_def split: prod.splits)
  show "length (snd (fst (CallWithErrorParse e api m p (slice_decoder zero edec) old))) = length xs"
    unfolding c by (rule decode_elems_length)
  show "\<forall>i<length xs.
               snd (fst (CallWithErrorParse e api m p (slice_decoder zero edec) old)) ! i =
                 fst (edec (xs ! i) (if i < length old then old ! i else zero))"
    unfolding c by (simp add: decode_elems_nth)
qed

theorem CallWithErrorParse_decoding_witness:
  "CallWithErrorParse (const_env (result_body (JArr two_hosts))) (demo_API ''tok'' 50400)
      ''host.get'' (Encodable (JObj [])) (slice_decoder [] host_decoder) []
     = ((None, [''10084'', ''10085'']),
        snd (callBytes (const_env (result_body (JArr two_hosts))) (demo_API ''tok'' 50400)
               ''host.get'' (Encodable (JObj [])))) \<and>
   length (snd (fst (CallWithErrorParse (const_env (result_body (JArr two_hosts)))
      (demo_API ''tok'' 50400) ''host.get'' (Encodable (JObj [])) (slice_decoder [] host_decoder) [])))
     = length two_hosts \<and>
   fst (CallWithErrorParse (const_env (error_body ''-32602'')) (demo_API ''tok'' 50400)
      ''host.get'' (Encodable (JObj [])) (slice_decoder [] host_decoder) [''old''])
     = (Some (APIError \<lparr>Code = - 32602, Message = ''Invalid params.'', Data = ''Not authorised.''\<rparr>),
        [''old''])"
proof -
  let ?e = "const_env (result_body (JArr two_hosts))" and ?a = "demo_API ''tok'' 50400"
  let ?e' = "const_env (error_body ''-32602'')"
  let ?x = "\<lparr>Code = - 32602, Message = ''Invalid params.'', Data = ''Not authorised.''\<rparr>"
  let ?raw = "\<lparr>raw_Jsonrpc = ''2.0'', raw_Error = None, raw_Result = Some (JArr two_hosts),
               raw_ID = 1\<rparr>"
  let ?raw' = "\<lparr>raw_Jsonrpc = ''2.0'', raw_Error = Some ?x, raw_Result = None, raw_ID = 1\<rparr>"
  let ?b = "Some (JObj [(''jsonrpc'', JStr ''2.0''), (''result'', JArr two_hosts), (''id'', JNum ''1'')])"
  let ?b' = "Some (JObj [(''jsonrpc'', JStr ''2.0''),
                       (''error'', JObj [(''code'', JNum ''-32602''), (''message'', JStr ''Invalid params.''),
                                         (''data'', JStr ''Not authorised.'')]),
                       (''id'', JNum ''1'')])"
  have cb: "callBytes ?e ?a ''host.get'' (Encodable (JObj [])) =
              (Inr ?b, snd (callBytes ?e ?a ''host.get'' (Encodable (JObj []))))"
    by (simp add: callBytes_def Marshal_request_def const_env_def result_body_def Let_def)
  have um: "Unmarshal_RawResponse ?b zero_RawResponse = (?raw, None)"
    by (simp add: eval_defs)
  have cb': "callBytes ?e' ?a ''host.get'' (Encodable (JObj [])) =
              (Inr ?b', snd (callBytes ?e' ?a ''host.get'' (Encodable (JObj []))))"
    by (simp add: callBytes_def Marshal_request_def const_env_def error_body_def Let_def)
  have um': "Unmarshal_RawResponse ?b' zero_RawResponse = (?raw', None)"
    by (simp add: eval_defs)
  have t: "Unmarshal_target (slice_decoder [] host_decoder) (Some (JArr two_hosts)) [] =
             ([''10084'', ''10085''], None)"
    by (simp add: two_hosts_def host_decoder_def)
  from CallWithErrorParse_decoding [OF cb um, of ?x "slice_decoder [] host_decoder" "[]" two_hosts "[]" host_decoder "[]"] t
  have 1: "CallWithErrorParse ?e ?a ''host.get'' (Encodable (JObj [])) (slice_decoder [] host_decoder) []
     = ((None, [''10084'', ''10085'']), snd (callBytes ?e ?a ''host.get'' (Encodable (JObj []))))"
    and 2: "length (snd (fst (CallWithErrorParse ?e ?a ''host.get'' (Encodable (JObj []))
               (slice_decoder [] host_decoder) []))) = length two_hosts"
    by (simp_all add: two_hosts_def)
  from CallWithErrorParse_decoding [OF cb' um', of ?x "slice_decoder [] host_decoder" "[''old'']" "[]" "[]" host_decoder "[]"]
  have 3: "fst (CallWithErrorParse ?e' ?a ''host.get'' (Encodable (JObj []))
               (slice_decoder [] host_decoder) [''old'']) = (Some (APIError ?x), [''old''])"
    by simp
  from 1 2 3 show ?thesis by simp
qed

section \<open>Correlation ids\<close>

lemma call_ids_eq:
  "call_ids e api cs = map (\<lambda>k. api_id api + of_nat (Suc k)) [0..<length cs]"
proof (induction cs arbitrary: api)
  case Nil
  show ?case by simp
next
  case (Cons c cs)
  let ?api' = "snd (callBytes e api (fst c) (snd c))"
  have i: "api_id ?api' = api_id api + 1" by (rule callBytes_api_id)
  have "call_ids e api (c # cs) = api_id ?api' # call_ids e ?api' cs"
    by (simp add: Let_def)
  also have "\<dots> = (api_id api + 1) # map (\<lambda>k. api_id api + 1 + of_nat (Suc k)) [0..<length cs]"
    by (simp only: Cons.IH i)
  also have "\<dots> = map (\<lambda>k. api_id api + of_nat (Suc k)) (0 # map Suc [0..<length cs])"
    by (simp add: add.assoc add.commute)
  also have "0 # map Suc [0..<length cs] = [0..<length (c # cs)]"
    by (simp add: upt_conv_Cons map_Suc_upt del: upt_Suc)
  finally show ?case .
qed

lemma of_nat_32_inj:
  assumes "i < 2 ^ 32" "j < 2 ^ 32" "(of_nat i :: 32 word) = of_nat j"
  shows "i = j"
proof -
  from assms(3) have "unat (of_nat i :: 32 word) = unat (of_nat j :: 32 word)" by simp
  with assms(1,2) show ?thesis by (simp add: unat_of_nat)
qed

lemma call_ids_distinct:
  assumes "length cs \<le> 2 ^ 32"
  shows "distinct (call_ids e api cs)"
proof -
  have "inj_on (\<lambda>k. api_id api + of_nat (Suc k)) (set [0..<length cs])"
  proof (rule inj_onI)
    fix i j
    assume i: "i \<in> set [0..<length cs]" and j: "j \<in> set [0..<length cs]"
      and eq: "api_id api + of_nat (Suc i) = api_id api + of_nat (Suc j)"
    from eq have "(of_nat i :: 32 word) = of_nat j" by simp
    moreover from i j assms have "i < 2 ^ 32" "j < 2 ^ 32" by auto
    ultimately show "i = j" by (rule of_nat_32_inj[rotated 2])
  qed
  then show ?thesis by (simp add: call_ids_eq distinct_map)
qed

lemma sint_add_of_nat_32:
  assumes "sint (a :: 32 word) + int m < 2 ^ 31"
  shows "sint (a + of_nat m) = sint a + int m"
proof -
  have "a + of_nat m = word_of_int (sint a + int m)" by simp
  moreover have "- (2 ^ 31) \<le> sint a" using sint_ge[of a] by simp
  then have "- (2 ^ 31) \<le> sint a + int m" by simp
  ultimately show ?thesis using assms
    by (simp only: sint_sbintrunc') (simp add: signed_take_bit_int_eq_self)
qed

lemma call_ids_increasing:
  assumes "sint (api_id api) + int (length cs) < 2 ^ 31"
  shows "sorted_wrt (\<lambda>a b. sint a < sint b) (call_ids e api cs)"
proof -
  have s: "sint (api_id api + of_nat (Suc k)) = sint (api_id api) + int (Suc k)"
    if "k < length cs" for k
    using that assms by (intro sint_add_of_nat_32) simp
  show ?thesis
    unfolding call_ids_eq sorted_wrt_iff_nth_less
    by (auto simp: s simp del: of_nat_Suc)
qed

text \<open>
  Claim C8, as the code has it. Every call through \<open>callBytes\<close>, and so every \<open>Call\<close>,
  \<open>CallWithError\<close> and \<open>CallWithErrorParse\<close>, adds exactly one to the counter whatever its
  outcome. The ids of a sequence of calls are consecutive in the wrapping arithmetic of
  \<open>int32\<close>; they are pairwise distinct for at most \<open>2^32\<close> calls, and strictly increasing
  as long as the counter does not pass \<open>2^31 - 1\<close>.
\<close>

theorem correlation_id_counter:
  "api_id (snd (callBytes e api m p)) = api_id api + 1 \<and>
   api_id (snd (Call e api m p)) = api_id api + 1 \<and>
   api_id (snd (CallWithError e api m p)) = api_id api + 1 \<and>
   api_id (snd (CallWithErrorParse e api m p dec t)) = api_id api + 1 \<and>
   call_ids e api cs = map (\<lambda>k. api_id api + of_nat (Suc k)) [0..<length cs] \<and>
   (length cs \<le> 2 ^ 32 \<longrightarrow> distinct (call_ids e api cs)) \<and>
   (sint (api_id api) + int (length cs) < 2 ^ 31 \<longrightarrow>
      sorted_wrt (\<lambda>a b. sint a < sint b) (call_ids e api cs))"
  using call_ids_eq[of e api cs] call_ids_distinct[of cs e api] call_ids_increasing[of api cs e]
  by (simp only: Call_snd CallWithError_snd CallWithErrorParse_snd callBytes_api_id) simp

theorem correlation_id_counter_witness:
  "call_ids (const_env (result_body (JArr []))) (demo_API [] 0) three_calls = [1, 2, 3] \<and>
   distinct (call_ids (const_env (result_body (JArr []))) (demo_API [] 0) three_calls) \<and>
   sorted_wrt (\<lambda>a b. sint a < sint b) (call_ids (const_env (result_body (JArr []))) (demo_API [] 0) three_calls)"
proof -
  have l: "length three_calls = 3" by (simp add: three_calls_def)
  have i: "api_id (demo_API [] 0) = 0" by (simp add: demo_API_def)
  have u: "[0..<3] = [0, 1, 2]" by (simp add: upt_conv_Cons)
  from correlation_id_counter [of "const_env (result_body (JArr []))" "demo_API [] 0" "''h''" Unencodable
      "\<lambda>j t. (t, False)" "()" three_calls]
  show ?thesis by (simp add: l i u)
qed

text \<open>
  Claim C8 as it is written fails where \<open>int32\<close> wraps: of \<open>2^31\<close> calls from a new
  client the last but one gets the id \<open>2147483647\<close> and the last one \<open>-2147483648\<close>.
\<close>

theorem correlation_id_wrap_counterexample:
  "\<not> sint (call_ids (const_env (result_body (JArr []))) (demo_API [] 0)
             (replicate 2147483648 (''host.get'', Encodable (JObj []))) ! 2147483646)
     < sint (call_ids (const_env (result_body (JArr []))) (demo_API [] 0)
             (replicate 2147483648 (''host.get'', Encodable (JObj []))) ! 2147483647)"
proof -
  have i: "api_id (demo_API [] 0) = 0" by (simp add: demo_API_def)
  have a: "call_ids (const_env (result_body (JArr []))) (demo_API [] 0)
             (replicate 2147483648 (''host.get'', Encodable (JObj []))) ! 2147483646 = 2147483647"
    by (simp add: call_ids_eq i del: of_nat_Suc)
  have b: "call_ids (const_env (result_body (JArr []))) (demo_API [] 0)
             (replicate 2147483648 (''host.get'', Encodable (JObj []))) ! 2147483647 = 2147483648"
    by (simp add: call_ids_eq i del: of_nat_Suc)
  show ?thesis unfolding a b by simp
qed

section \<open>The token\<close>

lemma Login_Auth_unless_success:
  "(\<forall>tok. fst (Login e api u pw) \<noteq> Returned (Inr tok)) \<Longrightarrow> Auth (snd (Login e api u pw)) = Auth api"
proof -
  let ?p = "\<lambda>k. Encodable (JObj [(''password'', JStr pw), (k, JStr u)])"
  let ?k = "if 50400 \<le> sint (Config_Version (Config api)) then ''username'' else ''user''"
  assume a: "\<forall>tok. fst (Login e api u pw) \<noteq> Returned (Inr tok)"
  obtain r err api' where c: "CallWithError e api ''user.login'' (?p ?k) = ((r, err), api')"
    by (metis prod.collapse)
  have "api' = snd (callBytes e api ''user.login'' (?p ?k))"
    using CallWithError_snd[of e api "''user.login''" "?p ?k"] c by simp
  then have au: "Auth api' = Auth api" by (simp add: callBytes_Auth)
  have l: "Login e api u pw =
     (case err of Some x \<Rightarrow> (Returned (Inl x), api')
      | None \<Rightarrow> (case Result r of JStr auth \<Rightarrow> (Returned (Inr auth), api'\<lparr>Auth := auth\<rparr>)
                 | _ \<Rightarrow> (Panicked, api')))"
    using c by (auto simp: Login_def split: if_splits)
  show ?thesis using a au unfolding l
    by (auto split: option.splits json.splits)
qed

lemma Version_Auth: "Auth (snd (Version e api)) = Auth api"
proof -
  let ?v = "''APIInfo.version''" and ?p = "Encodable (JObj [])"
  obtain r err api1 where c: "CallWithError e (api\<lparr>Auth := []\<rparr>) ?v ?p = ((r, err), api1)"
    by (metis prod.collapse)
  obtain r2 err2 api3 where c2: "CallWithError e (api1\<lparr>Auth := Auth api\<rparr>) ?v ?p = ((r2, err2), api3)"
    by (metis prod.collapse)
  have "api3 = snd (callBytes e (api1\<lparr>Auth := Auth api\<rparr>) ?v ?p)"
    using CallWithError_snd[of e "api1\<lparr>Auth := Auth api\<rparr>" ?v ?p] c2 by simp
  then have a3: "Auth api3 = Auth api" by (simp add: callBytes_Auth)
  show ?thesis using c c2 a3
    by (auto simp: Version_def Let_def split: option.splits error.splits json.splits if_splits)
qed

text \<open>
  Claim C9. \<open>Call\<close>, \<open>CallWithError\<close> and \<open>CallWithErrorParse\<close> never change the stored
  token; \<open>Login\<close> leaves it as it was when it returns an error (and when it panics); and
  after \<open>Version\<close> the token is the one it had before, on every path.
\<close>

theorem auth_token_frame:
  "Auth (snd (Call e api m p)) = Auth api \<and>
   Auth (snd (CallWithError e api m p)) = Auth api \<and>
   Auth (snd (CallWithErrorParse e api m p dec t)) = Auth api \<and>
   (fst (Login e api u pw) = Returned (Inl err) \<longrightarrow> Auth (snd (Login e api u pw)) = Auth api) \<and>
   (fst (Login e api u pw) = Panicked \<longrightarrow> Auth (snd (Login e api u pw)) = Auth api) \<and>
   Auth (snd (Version e api)) = Auth api"
  using Login_Auth_unless_success[of e api u pw]
  by (simp add: Call_snd CallWithError_snd CallWithErrorParse_snd callBytes_Auth Version_Auth)

theorem auth_token_frame_witness:
  "fst (Login (const_env DoFails) (demo_API ''tok'' 50400) ''Admin'' ''zabbix'') = Returned (Inl DoError) \<and>
   Auth (snd (Login (const_env DoFails) (demo_API ''tok'' 50400) ''Admin'' ''zabbix'')) = ''tok'' \<and>
   fst (Login (const_env (result_body JNull)) (demo_API ''tok'' 50400) ''Admin'' ''zabbix'') = Panicked \<and>
   Auth (snd (Login (const_env (result_body JNull)) (demo_API ''tok'' 50400) ''Admin'' ''zabbix'')) = ''tok'' \<and>
   Auth (snd (Version zabbix22 (demo_API ''tok'' 50400))) = ''tok''"
proof -
  have a: "Auth (demo_API ''tok'' 50400) = ''tok''" by (simp add: demo_API_def)
  have 1: "fst (Login (const_env DoFails) (demo_API ''tok'' 50400) ''Admin'' ''zabbix'') = Returned (Inl DoError)"
    by (simp add: eval_defs)
  have 2: "fst (Login (const_env (result_body JNull)) (demo_API ''tok'' 50400) ''Admin'' ''zabbix'') = Panicked"
    by (simp add: eval_defs)
  from auth_token_frame [of "const_env DoFails" "demo_API ''tok'' 50400" "''h''" Unencodable
      "\<lambda>j t. (t, False)" "()" "''Admin''" "''zabbix''" DoError] 1 a
  have 3: "Auth (snd (Login (const_env DoFails) (demo_API ''tok'' 50400) ''Admin'' ''zabbix'')) = ''tok''"
    by simp
  from auth_token_frame [of "const_env (result_body JNull)" "demo_API ''tok'' 50400" "''h''" Unencodable
      "\<lambda>j t. (t, False)" "()" "''Admin''" "''zabbix''" DoError] 2 a
  have 4: "Auth (snd (Login (const_env (result_body JNull)) (demo_API ''tok'' 50400) ''Admin'' ''zabbix'')) = ''tok''"
    by simp
  from auth_token_frame [of zabbix22 "demo_API ''tok'' 50400" "''h''" Unencodable
      "\<lambda>j t. (t, False)" "()" "''Admin''" "''zabbix''" DoError] a
  have 5: "Auth (snd (Version zabbix22 (demo_API ''tok'' 50400))) = ''tok''"
    by simp
  from 1 2 3 4 5 show ?thesis by simp
qed

section \<open>Construction\<close>

lemma Version_Config: "Config (snd (Version e api)) = Config api"
proof -
  let ?v = "''APIInfo.version''" and ?p = "Encodable (JObj [])"
  obtain r err api1 where c: "CallWithError e (api\<lparr>Auth := []\<rparr>) ?v ?p = ((r, err), api1)"
    by (metis prod.collapse)
  obtain r2 err2 api3 where c2: "CallWithError e (api1\<lparr>Auth := Auth api\<rparr>) ?v ?p = ((r2, err2), api3)"
    by (metis prod.collapse)
  have "api1 = snd (callBytes e (api\<lparr>Auth := []\<rparr>) ?v ?p)"
    using CallWithError_snd[of e "api\<lparr>Auth := []\<rparr>" ?v ?p] c by simp
  then have a1: "Config api1 = Config api" by (simp add: callBytes_Config)
  have "api3 = snd (callBytes e (api1\<lparr>Auth := Auth api\<rparr>) ?v ?p)"
    using CallWithError_snd[of e "api1\<lparr>Auth := Auth api\<rparr>" ?v ?p] c2 by simp
  then have a3: "Config api3 = Config api" using a1 by (simp add: callBytes_Config)
  show ?thesis using c c2 a1 a3
    by (auto simp: Version_def Let_def split: option.splits error.splits json.splits if_splits)
qed

text \<open>
  Claim C10, as the code has it. When the version-info call returns an error, or returns a
  version string that does not parse, \<open>NewAPI\<close> returns the client together with that
  error, and the client's configuration is the \<open>Config\<close> that was passed in: the version
  field keeps the value the caller supplied, which is zero when the caller left it unset.
\<close>

theorem NewAPI_failure_returns_client:
  "(fst (Version e (new_API c)) = Returned (Inl err) \<longrightarrow>
      (\<exists>api. NewAPI e c = Returned (api, Some err) \<and> Config api = c)) \<and>
   (fst (Version e (new_API c)) = Returned (Inr v) \<and> parseVersionString v = Inl err \<longrightarrow>
      (\<exists>api. NewAPI e c = Returned (api, Some err) \<and> Config api = c))"
proof -
  have cfg: "Config (snd (Version e (new_API c))) = c"
    by (simp add: Version_Config new_API_def)
  obtain out api' where v: "Version e (new_API c) = (out, api')" by (cases "Version e (new_API c)")
  with cfg have c': "Config api' = c" by simp
  have n: "NewAPI e c =
      (case Version e (new_API c) of
           (Panicked, api') \<Rightarrow> Panicked
         | (Returned (Inl err), api') \<Rightarrow> Returned (api', Some err)
         | (Returned (Inr rawVersion), api') \<Rightarrow>
             (case parseVersionString rawVersion of
                Inl err \<Rightarrow> Returned (api', Some err)
              | Inr version \<Rightarrow>
                  Returned (api'\<lparr>Config := (Config api')\<lparr>Config_Version := version\<rparr>\<rparr>, None)))"
    by (simp add: NewAPI_def Let_def)
  show ?thesis unfolding n v using c' by auto
qed

theorem NewAPI_failure_returns_client_witness:
  "(\<exists>api. NewAPI (const_env DoFails) (demo_Config 0) = Returned (api, Some DoError) \<and>
          Config api = demo_Config 0) \<and>
   (\<exists>api. NewAPI (const_env (result_body (JStr ''5.4.x''))) (demo_Config 0)
            = Returned (api, Some ErrSyntax) \<and>
          Config api = demo_Config 0)"
proof -
  have 1: "fst (Version (const_env DoFails) (new_API (demo_Config 0))) = Returned (Inl DoError)"
    by (simp add: eval_defs new_API_def)
  have 2: "fst (Version (const_env (result_body (JStr ''5.4.x''))) (new_API (demo_Config 0)))
             = Returned (Inr ''5.4.x'')"
    by (simp add: eval_defs new_API_def)
  have 3: "parseVersionString ''5.4.x'' = Inl ErrSyntax"
    by (simp add: parseVersionString_def strings_Split.simps eval_defs)
  from NewAPI_failure_returns_client [of "const_env DoFails" "demo_Config 0" DoError "[]"] 1
  have a: "\<exists>api. NewAPI (const_env DoFails) (demo_Config 0) = Returned (api, Some DoError) \<and>
          Config api = demo_Config 0"
    by blast
  from NewAPI_failure_returns_client [of "const_env (result_body (JStr ''5.4.x''))" "demo_Config 0"
      ErrSyntax "''5.4.x''"] 2 3
  have b: "\<exists>api. NewAPI (const_env (result_body (JStr ''5.4.x''))) (demo_Config 0)
            = Returned (api, Some ErrSyntax) \<and> Config api = demo_Config 0"
    by blast
  from a b show ?thesis by blast
qed

text \<open>
  Claim C10 as it is written fails for a caller who fills in the version field: it is
  returned as 7, not as zero.
\<close>

theorem NewAPI_supplied_version_counterexample:
  "NewAPI (const_env DoFails) (demo_Config 7)
     = Returned (snd (Version (const_env DoFails) (new_API (demo_Config 7))), Some DoError) \<and>
   Config_Version (Config (snd (Version (const_env DoFails) (new_API (demo_Config 7))))) = 7 \<and>
   (7 :: int64) \<noteq> 0"
  by (simp add: eval_defs new_API_def)

end
